theory Spec2Isabelle
  imports Main
begin

section \<open>Python values used by the news parser\<close>

text \<open>
  A Python \<open>str\<close> is modelled as a \<open>string\<close>: one \<open>char\<close> stands for one code
  point, so \<open>length\<close> is Python's \<open>len\<close>. Exceptions are values of the type
  \<open>error\<close>; a function that can raise returns \<open>error + 'a\<close> with \<open>Inl\<close> for the
  exception. \<open>LinkCorrelationUnderflow\<close> is an error kind of the specification only:
  no statement of \<open>newsparser.py\<close> raises it.
\<close>

datatype error =
    TypeError
  | ValueError
  | OverflowError
  | MarkupParseError
  | MentionExtractionError
  | LinkCorrelationUnderflow

text \<open>\<open>s.startswith(p)\<close>.\<close>

definition startswith :: "string \<Rightarrow> string \<Rightarrow> bool" where
  "startswith s p = (take (length p) s = p)"

text \<open>
  \<open>s.find(sub)\<close>: the lowest index at which \<open>sub\<close> occurs in \<open>s\<close>, and \<open>-1\<close> when
  it does not occur. \<open>find_opt\<close> is the search itself, \<open>find_str\<close> adds Python's
  sentinel.
\<close>

fun find_from :: "string \<Rightarrow> nat \<Rightarrow> string \<Rightarrow> nat option" where
  "find_from sub i [] = (if sub = [] then Some i else None)"
| "find_from sub i (c # cs) =
     (if startswith (c # cs) sub then Some i else find_from sub (Suc i) cs)"

definition find_opt :: "string \<Rightarrow> string \<Rightarrow> nat option" where
  "find_opt s sub = find_from sub 0 s"

definition find_str :: "string \<Rightarrow> string \<Rightarrow> int" where
  "find_str s sub = (case find_opt s sub of None \<Rightarrow> - 1 | Some i \<Rightarrow> int i)"

text \<open>
  Slicing, \<open>s[a:b]\<close> and \<open>s[a:]\<close>: a negative index counts from the end, every
  index is clamped to \<open>0..len(s)\<close>, and a slice whose end lies before its start is
  empty. Slicing never raises.
\<close>

definition norm_idx :: "nat \<Rightarrow> int \<Rightarrow> nat" where
  "norm_idx n i = (if i < 0 then nat (max 0 (int n + i)) else min n (nat i))"

definition slice :: "string \<Rightarrow> int \<Rightarrow> int \<Rightarrow> string" where
  "slice s a b =
     (let lo = norm_idx (length s) a; hi = norm_idx (length s) b
      in take (hi - lo) (drop lo s))"

definition slice_from :: "string \<Rightarrow> int \<Rightarrow> string" where
  "slice_from s a = drop (norm_idx (length s) a) s"

text \<open>\<open>d.get(k, default)\<close> on a dictionary.\<close>

definition dict_get :: "('k \<rightharpoonup> 'v) \<Rightarrow> 'k \<Rightarrow> 'v \<Rightarrow> 'v" where
  "dict_get d k dflt = (case d k of None \<Rightarrow> dflt | Some v \<Rightarrow> v)"

section \<open>The plus-one classifier\<close>

text \<open>
  \<^verbatim>\<open>
  def isPlusOne(msg):
    return msg.startswith("+1") and len(msg) < 10
  \<close>
\<close>

definition isPlusOne :: "string \<Rightarrow> bool" where
  "isPlusOne msg = (startswith msg ''+1'' \<and> length msg < 10)"

section \<open>Articles\<close>

text \<open>
  The fields of a \<open>newsArticle\<close> object. \<open>content\<close> and \<open>is_plus_one\<close> start as
  Python's \<open>None\<close>. The mention manager is a collaborator outside the object and is
  passed to the operations that call it.
\<close>

record article =
  author_username :: string
  author_displayname :: string
  topic :: string
  subject :: string
  date :: string
  raw_msg :: string
  raw_html :: string
  broken :: bool
  content :: "string option"
  is_plus_one :: "bool option"

text \<open>
  \<^verbatim>\<open>
  def isPlusOne(self):
    if self.is_plus_one is None:
      self.is_plus_one = isPlusOne(self.raw_msg)
    return self.is_plus_one
  \<close>
  The method returns the flag and the updated object.
\<close>

definition article_isPlusOne :: "article \<Rightarrow> bool \<times> article" where
  "article_isPlusOne a =
     (case is_plus_one a of
        None \<Rightarrow> (let b = isPlusOne (raw_msg a) in (b, a\<lparr>is_plus_one := Some b\<rparr>))
      | Some b \<Rightarrow> (b, a))"

section \<open>The HTML transcoder\<close>

text \<open>
  \<open>articleParser\<close> extends the standard library's \<open>HTMLParser\<close>, which scans the
  raw HTML and calls one handler per token, in document order. An attribute is a
  pair of its name and its value, and the value of an attribute written without
  one (\<open><a href>\<close>) is Python's \<open>None\<close>. The class overrides the handlers of start
  tags, end tags, text and entity references; character references, comments and
  declarations reach the inherited handlers, which do nothing. A self-closing tag
  arrives as a start tag followed by an end tag.
\<close>

type_synonym attr = "string \<times> string option"

datatype token =
    StartTag string "attr list"
  | EndTag string
  | Data string
  | EntityRef string
  | CharRef string
  | Comment string

definition supported_tags :: "string list" where
  "supported_tags =
     [''strike'', ''i'', ''strong'', ''b'', ''pre'', ''ins'', ''a'', ''code'', ''del'',
      ''s'', ''em'', ''u'']"

definition useful_attrs :: "string list" where
  "useful_attrs = [''href'', ''title'', ''class'']"

definition tag_mapping :: "string \<rightharpoonup> string" where
  "tag_mapping =
     map_of [(''h1'', ''b''), (''h2'', ''b''), (''h3'', ''b''), (''blockquote'', ''i'')]"

text \<open>
  \<^verbatim>\<open>tag_attrs = {at[0]: at[1] for at in attrs if at[0] in self.useful_attrs}\<close>
  A dictionary comprehension keeps the last value of a repeated key.
\<close>

definition tag_attrs :: "attr list \<Rightarrow> (string \<rightharpoonup> string option)" where
  "tag_attrs attrs = map_of (rev (filter (\<lambda>at. fst at \<in> set useful_attrs) attrs))"

text \<open>
  The decision both tag handlers take:
  \<^verbatim>\<open>
    if ptag not in self.supported_tags:
      ptag = self.tag_mapping.get(ptag, None)
  \<close>
\<close>

definition convert_tag :: "string \<Rightarrow> string option" where
  "convert_tag tag = (if tag \<in> set supported_tags then Some tag else tag_mapping tag)"

text \<open>
  \<^verbatim>\<open>emoji.get(tag_attrs.get('title', ':cow:'), '')\<close>
  The table \<open>emoji\<close> of the module \<open>emoji_codepoints\<close> is a parameter: a dictionary
  from short names to glyphs. The title read from the attributes may be \<open>None\<close>,
  which is not a key of the table.
\<close>

definition emoji_glyph :: "(string \<rightharpoonup> string) \<Rightarrow> (string \<rightharpoonup> string option) \<Rightarrow> string" where
  "emoji_glyph emoji ta =
     (case dict_get ta ''title'' (Some '':cow:'') of
        None \<Rightarrow> []
      | Some key \<Rightarrow> dict_get emoji key [])"

text \<open>
  \<^verbatim>\<open>
  def handle_starttag(self, tag, attrs):
    tag_attrs = {at[0]: at[1] for at in attrs if at[0] in self.useful_attrs}
    ptag = tag
    if ptag not in self.supported_tags:
      ptag = self.tag_mapping.get(ptag, None)
    if ptag != None:
      attr_str = ' href=\"' + tag_attrs.get('href', '') + '\"' if tag == 'a' else ''
      self.fed.append(f'<{ptag+attr_str}>')
    if tag == 'img' and tag_attrs.get('class', '') == 'emoji':
      self.fed.append(emoji.get(tag_attrs.get('title', ':cow:'), ''))
      return
  \<close>
  \<open>fed\<close> is the list of fragments emitted so far. Concatenating a string with the
  \<open>None\<close> of a valueless \<open>href\<close> raises \<open>TypeError\<close>.
\<close>

definition attr_str :: "string \<Rightarrow> (string \<rightharpoonup> string option) \<Rightarrow> error + string" where
  "attr_str tag ta =
     (if tag = ''a''
      then (case dict_get ta ''href'' (Some []) of
              None \<Rightarrow> Inl TypeError
            | Some h \<Rightarrow> Inr ('' href=\"'' @ h @ ''\"''))
      else Inr [])"

definition handle_starttag ::
  "(string \<rightharpoonup> string) \<Rightarrow> string \<Rightarrow> attr list \<Rightarrow> string list \<Rightarrow> error + string list" where
  "handle_starttag emoji tag attrs fed =
     (let ta = tag_attrs attrs;
          ptag = convert_tag tag;
          opened =
            (case ptag of
               None \<Rightarrow> Inr fed
             | Some p \<Rightarrow>
                 (case attr_str tag ta of
                    Inl e \<Rightarrow> Inl e
                  | Inr astr \<Rightarrow> Inr (fed @ [''<'' @ p @ astr @ ''>''])))
      in case opened of
           Inl e \<Rightarrow> Inl e
         | Inr fed1 \<Rightarrow>
             (if tag = ''img'' \<and> dict_get ta ''class'' (Some []) = Some ''emoji''
              then Inr (fed1 @ [emoji_glyph emoji ta])
              else Inr fed1))"

text \<open>
  \<^verbatim>\<open>
  def handle_endtag(self, tag):
    if tag not in self.supported_tags:
      tag = self.tag_mapping.get(tag, None)
    if tag != None:
      self.fed.append(f'</{tag}>')
  \<close>
\<close>

definition handle_endtag :: "string \<Rightarrow> string list \<Rightarrow> string list" where
  "handle_endtag tag fed =
     (case convert_tag tag of
        None \<Rightarrow> fed
      | Some p \<Rightarrow> fed @ [''</'' @ p @ ''>''])"

text \<open>\<^verbatim>\<open>self.fed.append(f'&{name};')\<close> and \<^verbatim>\<open>self.fed.append(data)\<close>.\<close>

definition handle_entityref :: "string \<Rightarrow> string list \<Rightarrow> string list" where
  "handle_entityref name fed = fed @ [''&'' @ name @ '';'']"

definition handle_data :: "string \<Rightarrow> string list \<Rightarrow> string list" where
  "handle_data data fed = fed @ [data]"

text \<open>One token goes to its handler; the first exception ends the run.\<close>

fun handle_token ::
  "(string \<rightharpoonup> string) \<Rightarrow> token \<Rightarrow> string list \<Rightarrow> error + string list" where
  "handle_token emoji (StartTag tag attrs) fed = handle_starttag emoji tag attrs fed"
| "handle_token emoji (EndTag tag) fed = Inr (handle_endtag tag fed)"
| "handle_token emoji (Data d) fed = Inr (handle_data d fed)"
| "handle_token emoji (EntityRef name) fed = Inr (handle_entityref name fed)"
| "handle_token emoji (CharRef name) fed = Inr fed"
| "handle_token emoji (Comment c) fed = Inr fed"

fun feed_tokens ::
  "(string \<rightharpoonup> string) \<Rightarrow> token list \<Rightarrow> string list \<Rightarrow> error + string list" where
  "feed_tokens emoji [] fed = Inr fed"
| "feed_tokens emoji (t # ts) fed =
     (case handle_token emoji t fed of
        Inl e \<Rightarrow> Inl e
      | Inr fed1 \<Rightarrow> feed_tokens emoji ts fed1)"

text \<open>\<^verbatim>\<open>return "".join(self.fed)\<close>\<close>

definition get_data :: "string list \<Rightarrow> string" where
  "get_data fed = concat fed"

text \<open>
  A fresh parser (\<open>fed = []\<close>) fed a token sequence, then asked for its data:
  \<^verbatim>\<open>p = articleParser(); p.feed(...); content = p.get_data()\<close>.
\<close>

definition transcode :: "(string \<rightharpoonup> string) \<Rightarrow> token list \<Rightarrow> error + string" where
  "transcode emoji ts =
     (case feed_tokens emoji ts [] of
        Inl e \<Rightarrow> Inl e
      | Inr fed \<Rightarrow> Inr (get_data fed))"

text \<open>
  Validly nested fragments: a forest of elements, text and entity references, and
  the token sequence the scanner produces for it.
\<close>

datatype node =
    Elem string "attr list" "node list"
  | Text string
  | Entity string

fun tokens_of :: "node \<Rightarrow> token list" where
  "tokens_of (Elem tag attrs kids) =
     StartTag tag attrs # concat (map tokens_of kids) @ [EndTag tag]"
| "tokens_of (Text d) = [Data d]"
| "tokens_of (Entity n) = [EntityRef n]"

definition tokens_of_forest :: "node list \<Rightarrow> token list" where
  "tokens_of_forest ns = concat (map tokens_of ns)"

text \<open>
  The balanced rendering of a forest: an element whose tag is kept or converted is
  its open tag, its children and the matching close tag; any other element is
  unwrapped to its children (after the glyph, for an emoji image).
\<close>

definition open_tag :: "string \<Rightarrow> string \<Rightarrow> attr list \<Rightarrow> string" where
  "open_tag tag p attrs =
     ''<'' @ p @
     (if tag = ''a''
      then '' href=\"'' @ (case dict_get (tag_attrs attrs) ''href'' (Some []) of
                             None \<Rightarrow> [] | Some h \<Rightarrow> h) @ ''\"''
      else []) @ ''>''"

definition close_tag :: "string \<Rightarrow> string" where
  "close_tag p = ''</'' @ p @ ''>''"

fun render :: "(string \<rightharpoonup> string) \<Rightarrow> node \<Rightarrow> string" where
  "render emoji (Elem tag attrs kids) =
     (case convert_tag tag of
        Some p \<Rightarrow> open_tag tag p attrs @ concat (map (render emoji) kids) @ close_tag p
      | None \<Rightarrow>
          (if tag = ''img'' \<and> dict_get (tag_attrs attrs) ''class'' (Some []) = Some ''emoji''
           then emoji_glyph emoji (tag_attrs attrs) else [])
          @ concat (map (render emoji) kids))"
| "render emoji (Text d) = d"
| "render emoji (Entity n) = ''&'' @ n @ '';''"

definition render_forest :: "(string \<rightharpoonup> string) \<Rightarrow> node list \<Rightarrow> string" where
  "render_forest emoji ns = concat (map (render emoji) ns)"

text \<open>
  The fragments the claim on tag balance speaks of: every element carries an
  allow-listed or mapped tag, and every anchor's \<open>href\<close>, when present, has a value.
\<close>

fun known_tags :: "node \<Rightarrow> bool" where
  "known_tags (Elem tag attrs kids) =
     (convert_tag tag \<noteq> None \<and> list_all known_tags kids)"
| "known_tags (Text d) = True"
| "known_tags (Entity n) = True"

fun href_valued :: "node \<Rightarrow> bool" where
  "href_valued (Elem tag attrs kids) =
     ((tag = ''a'' \<longrightarrow> dict_get (tag_attrs attrs) ''href'' (Some []) \<noteq> None)
      \<and> list_all href_valued kids)"
| "href_valued (Text d) = True"
| "href_valued (Entity n) = True"

section \<open>The link correlator\<close>

text \<open>\<open>str(n)\<close> of a natural number, as the f-string \<^verbatim>\<open>f"Link {link_counter}"\<close> prints it.\<close>

definition digit_char :: "nat \<Rightarrow> char" where
  "digit_char d = char_of (48 + d)"

fun show_nat :: "nat \<Rightarrow> string" where
  "show_nat n = (if n < 10 then [digit_char n] else show_nat (n div 10) @ [digit_char (n mod 10)])"

declare show_nat.simps [simp del]

text \<open>
  The pattern \<^verbatim>\<open>!\[([^\]]*)\]\(([^\)]*)\)\<close> tried at the start of a string. The two
  starred classes exclude the character that must follow them, so the only
  possible match takes the longest run of each: the result is the length of
  group 1 and the length of the whole match.
\<close>

definition match_at :: "string \<Rightarrow> (nat \<times> nat) option" where
  "match_at s =
     (case s of
        c1 # c2 # r \<Rightarrow>
          if c1 = CHR ''!'' \<and> c2 = CHR ''[''
          then (let name = takeWhile (\<lambda>c. c \<noteq> CHR '']'') r
                in case dropWhile (\<lambda>c. c \<noteq> CHR '']'') r of
                     d1 # d2 # r2 \<Rightarrow>
                       if d1 = CHR '']'' \<and> d2 = CHR ''(''
                       then (let url = takeWhile (\<lambda>c. c \<noteq> CHR '')'') r2
                             in case dropWhile (\<lambda>c. c \<noteq> CHR '')'') r2 of
                                  e # r3 \<Rightarrow>
                                    if e = CHR '')''
                                    then Some (length name, 5 + length name + length url)
                                    else None
                                | [] \<Rightarrow> None)
                       else None
                   | _ \<Rightarrow> None)
          else None
      | _ \<Rightarrow> None)"

text \<open>
  A match object: \<open>m.span()\<close> and \<open>m.span(1)\<close>. \<open>pattern.finditer(msg)\<close> yields the
  non-overlapping matches from left to right, each search resuming where the
  previous match ended.
\<close>

record re_match =
  span_start :: nat
  span_end :: nat
  name_start :: nat
  name_end :: nat

function finditer_from :: "string \<Rightarrow> nat \<Rightarrow> re_match list" where
  "finditer_from msg pos =
     (if length msg \<le> pos then []
      else (case match_at (drop pos msg) of
              None \<Rightarrow> finditer_from msg (Suc pos)
            | Some (name_len, match_len) \<Rightarrow>
                \<lparr>span_start = pos, span_end = pos + match_len,
                 name_start = pos + 2, name_end = pos + 2 + name_len\<rparr>
                # finditer_from msg (pos + match_len)))"
  by pat_completeness auto
termination
  by (relation "measure (\<lambda>(msg, pos). length msg - pos)")
     (auto simp: match_at_def Let_def split: list.splits if_splits)

declare finditer_from.simps [simp del]

definition finditer :: "string \<Rightarrow> re_match list" where
  "finditer msg = finditer_from msg 0"

text \<open>
  \<^verbatim>\<open>
  def parseLinks(self, msg):
    regex = r"!\[([^\]]*)\]\(([^\)]*)\)"
    img_tag = '<img src=\"'
    pattern = re.compile(regex)
    parsed = ""
    link_counter = 1
    last_pos = 0
    for m in pattern.finditer(msg):
      name_start, name_end = m.span(1)
      link_name = msg[name_start:name_end]
      if link_name == "":
        link_name = f"Link {link_counter}"
      html_link_start = self.raw_html.find(img_tag) + len(img_tag)
      html_link_len = self.raw_html[html_link_start:].find('"')
      html_link = self.raw_html[html_link_start:html_link_start + html_link_len]
      self.raw_html = self.raw_html[html_link_start + html_link_len:]
      match_start, match_end = m.span()
      parsed += msg[last_pos:match_start] + f"[{link_name}]({html_link})"
      last_pos = match_end
      link_counter += 1
    parsed += msg[last_pos:]
    return parsed
  \<close>
  The loop state is \<open>(parsed, link_counter, last_pos, self.raw_html)\<close>. No statement
  of the method raises: \<open>find\<close> answers \<open>-1\<close> and slices clamp.
\<close>

definition img_tag :: string where
  "img_tag = ''<img src=\"''"

definition next_link :: "string \<Rightarrow> string \<times> string" where
  "next_link html =
     (let html_link_start = find_str html img_tag + int (length img_tag);
          html_link_len = find_str (slice_from html html_link_start) ''\"'';
          html_link = slice html html_link_start (html_link_start + html_link_len)
      in (html_link, slice_from html (html_link_start + html_link_len)))"

definition link_name :: "string \<Rightarrow> re_match \<Rightarrow> nat \<Rightarrow> string" where
  "link_name msg m link_counter =
     (let name = slice msg (int (name_start m)) (int (name_end m))
      in if name = [] then ''Link '' @ show_nat link_counter else name)"

fun parseLinks_loop ::
  "string \<Rightarrow> re_match list \<Rightarrow> string \<times> nat \<times> nat \<times> string \<Rightarrow> string \<times> nat \<times> nat \<times> string" where
  "parseLinks_loop msg [] st = st"
| "parseLinks_loop msg (m # ms) (parsed, link_counter, last_pos, html) =
     (let (html_link, html') = next_link html;
          parsed' = parsed @ slice msg (int last_pos) (int (span_start m))
                    @ ''['' @ link_name msg m link_counter @ '']('' @ html_link @ '')''
      in parseLinks_loop msg ms (parsed', link_counter + 1, span_end m, html'))"

definition parseLinks :: "article \<Rightarrow> string \<Rightarrow> string \<times> article" where
  "parseLinks a msg =
     (case parseLinks_loop msg (finditer msg) ([], 1, 0, raw_html a) of
        (parsed, link_counter, last_pos, html) \<Rightarrow>
          (parsed @ slice_from msg (int last_pos), a\<lparr>raw_html := html\<rparr>))"

text \<open>
  The URLs the first \<open>n\<close> rounds of the loop put into the links, starting from a
  given HTML body: each round takes the link \<open>next_link\<close> finds and goes on with
  the HTML that \<open>next_link\<close> leaves.
\<close>

fun code_urls :: "nat \<Rightarrow> string \<Rightarrow> string list" where
  "code_urls 0 html = []"
| "code_urls (Suc n) html = fst (next_link html) # code_urls n (snd (next_link html))"

subsection \<open>The correlator of the specification\<close>

text \<open>
  The specification's algorithm, written from its words to compare the method with.
  The queue holds, in document order, the URL of every image source of the HTML
  body: the text between \<^verbatim>\<open><img src="\<close> and the next double quote.
\<close>

function img_urls :: "string \<Rightarrow> string list" where
  "img_urls html =
     (case find_opt html img_tag of
        None \<Rightarrow> []
      | Some i \<Rightarrow>
          (let rest = drop (i + length img_tag) html
           in case find_opt rest ''\"'' of
                None \<Rightarrow> []
              | Some j \<Rightarrow> take j rest # img_urls (drop (Suc j) rest)))"
  by pat_completeness auto
termination
proof (relation "measure length", goal_cases)
  case 1
  show ?case by simp
next
  case (2 html i rest j)
  from 2(1) have "html \<noteq> []"
    by (auto simp: find_opt_def img_tag_def)
  then show ?case using 2(2) by (cases html) auto
qed

declare img_urls.simps [simp del]

text \<open>
  The placeholders are scanned left to right; the i-th takes its alt text, or
  \<open>Link i\<close>, as display name and pops the next URL of the queue. An empty queue at
  a placeholder is the error \<open>LinkCorrelationUnderflow\<close>; the text after the last
  placeholder is appended.
\<close>

fun correlate_spec ::
  "string \<Rightarrow> re_match list \<Rightarrow> nat \<Rightarrow> nat \<Rightarrow> string list \<Rightarrow> error + string" where
  "correlate_spec msg [] i cursor queue = Inr (drop cursor msg)"
| "correlate_spec msg (m # ms) i cursor [] = Inl LinkCorrelationUnderflow"
| "correlate_spec msg (m # ms) i cursor (url # queue) =
     (case correlate_spec msg ms (Suc i) (span_end m) queue of
        Inl e \<Rightarrow> Inl e
      | Inr rest \<Rightarrow>
          Inr (take (span_start m - cursor) (drop cursor msg)
               @ ''['' @ link_name msg m i @ '']('' @ url @ '')'' @ rest))"

definition LinkCorrelator_spec :: "string \<Rightarrow> string \<Rightarrow> error + string" where
  "LinkCorrelator_spec msg html = correlate_spec msg (finditer msg) 1 0 (img_urls html)"

section \<open>The date formatter\<close>

text \<open>
  \<open>getHumanReadableDate\<close> calls these functions of the standard library's
  \<open>datetime\<close>, modelled here on ASCII input:
  \<^item> \<open>strptime\<close> with the format \<^verbatim>\<open>%Y-%m-%dT%H:%M:%S\<close>: four digits for the year,
    one or two digits for every other field (the day may also be a space and a
    digit), the separators as written (the letter \<open>T\<close> in either case), and
    \<open>ValueError\<close> for any other text or a date that does not exist;
  \<^item> \<open>timedelta(hours=h)\<close>, which takes a number and raises \<open>TypeError\<close> for a list
    (the model has whole numbers only; a float is outside it);
  \<^item> the sum of a \<open>datetime\<close> and a \<open>timedelta\<close>, which raises \<open>OverflowError\<close>
    outside the years 1 to 9999;
  \<^item> \<open>strftime\<close> with the format \<^verbatim>\<open>%d %b %Y, %H:%M:%S\<close> in the C locale; the
    C library prints the year of \<open>%Y\<close> without padding.
\<close>

record datetime =
  year :: nat
  month :: nat
  day :: nat
  hour :: nat
  minute :: nat
  second :: nat

definition is_digit :: "char \<Rightarrow> bool" where
  "is_digit c = (c \<in> set ''0123456789'')"

definition digit_val :: "char \<Rightarrow> nat" where
  "digit_val c = of_char c - 48"

definition read_nat :: "string \<Rightarrow> nat" where
  "read_nat s = foldl (\<lambda>n c. 10 * n + digit_val c) 0 s"

definition parse_field :: "nat \<Rightarrow> nat \<Rightarrow> string \<Rightarrow> nat option" where
  "parse_field lo hi s =
     (if s \<noteq> [] \<and> length s \<le> 2 \<and> list_all is_digit s
         \<and> lo \<le> read_nat s \<and> read_nat s \<le> hi
      then Some (read_nat s) else None)"

definition parse_year :: "string \<Rightarrow> nat option" where
  "parse_year s = (if length s = 4 \<and> list_all is_digit s then Some (read_nat s) else None)"

definition parse_day :: "string \<Rightarrow> nat option" where
  "parse_day s =
     (case s of
        [c, d] \<Rightarrow> if c = CHR '' '' then parse_field 1 9 [d] else parse_field 1 31 s
      | _ \<Rightarrow> parse_field 1 31 s)"

definition is_leap :: "nat \<Rightarrow> bool" where
  "is_leap y = (y mod 4 = 0 \<and> (y mod 100 \<noteq> 0 \<or> y mod 400 = 0))"

definition days_in_month :: "nat \<Rightarrow> nat \<Rightarrow> nat" where
  "days_in_month y m =
     (if m = 2 then (if is_leap y then 29 else 28)
      else if m \<in> {4, 6, 9, 11} then 30 else 31)"

definition days_before_month :: "nat \<Rightarrow> nat \<Rightarrow> nat" where
  "days_before_month y m =
     [0, 31, 59, 90, 120, 151, 181, 212, 243, 273, 304, 334] ! (m - 1)
     + (if 2 < m \<and> is_leap y then 1 else 0)"

definition days_before_year :: "nat \<Rightarrow> nat" where
  "days_before_year y = (y - 1) * 365 + (y - 1) div 4 - (y - 1) div 100 + (y - 1) div 400"

text \<open>The proleptic Gregorian ordinal of a date: 1 is the first of January of year 1.\<close>

definition ymd2ord :: "nat \<Rightarrow> nat \<Rightarrow> nat \<Rightarrow> nat" where
  "ymd2ord y m d = days_before_year y + days_before_month y m + d"

definition ord2ymd :: "nat \<Rightarrow> nat \<times> nat \<times> nat" where
  "ord2ymd ordinal =
     (let n = ordinal - 1;
          n400 = n div 146097; n = n mod 146097;
          n100 = n div 36524; n = n mod 36524;
          n4 = n div 1461; n = n mod 1461;
          n1 = n div 365; n = n mod 365;
          y = n400 * 400 + 1 + n100 * 100 + n4 * 4 + n1
      in if n1 = 4 \<or> n100 = 4 then (y - 1, 12, 31)
         else (let leap = (n1 = 3 \<and> (n4 \<noteq> 24 \<or> n100 = 3));
                   m = (n + 50) div 32;
                   preceding = [0, 31, 59, 90, 120, 151, 181, 212, 243, 273, 304, 334] ! (m - 1)
                               + (if 2 < m \<and> leap then 1 else 0)
               in if n < preceding
                  then (let m' = m - 1;
                            preceding' = preceding
                              - ((if m' = 2 then 28 else if m' \<in> {4, 6, 9, 11} then 30 else 31)
                                 + (if m' = 2 \<and> leap then 1 else 0))
                        in (y, m', n - preceding' + 1))
                  else (y, m, n - preceding + 1)))"

definition split_on :: "(char \<Rightarrow> bool) \<Rightarrow> string \<Rightarrow> (string \<times> string) option" where
  "split_on sep s =
     (case dropWhile (\<lambda>c. \<not> sep c) s of
        [] \<Rightarrow> None
      | c # rest \<Rightarrow> Some (takeWhile (\<lambda>c. \<not> sep c) s, rest))"

definition split_fields :: "string \<Rightarrow> (string \<times> string \<times> string \<times> string \<times> string \<times> string) option" where
  "split_fields s =
     (case split_on (\<lambda>c. c = CHR ''-'') s of
        None \<Rightarrow> None
      | Some (ys, s1) \<Rightarrow>
     (case split_on (\<lambda>c. c = CHR ''-'') s1 of
        None \<Rightarrow> None
      | Some (ms, s2) \<Rightarrow>
     (case split_on (\<lambda>c. c = CHR ''T'' \<or> c = CHR ''t'') s2 of
        None \<Rightarrow> None
      | Some (ds, s3) \<Rightarrow>
     (case split_on (\<lambda>c. c = CHR '':'') s3 of
        None \<Rightarrow> None
      | Some (hs, s4) \<Rightarrow>
     (case split_on (\<lambda>c. c = CHR '':'') s4 of
        None \<Rightarrow> None
      | Some (mins, secs) \<Rightarrow> Some (ys, ms, ds, hs, mins, secs))))))"

definition strptime :: "string \<Rightarrow> error + datetime" where
  "strptime s =
     (case split_fields s of
        None \<Rightarrow> Inl ValueError
      | Some (ys, ms, ds, hs, mins, secs) \<Rightarrow>
          (case (parse_year ys, parse_field 1 12 ms, parse_day ds,
                 parse_field 0 23 hs, parse_field 0 59 mins, parse_field 0 59 secs) of
             (Some y, Some m, Some d, Some h, Some mi, Some sec) \<Rightarrow>
               if 1 \<le> y \<and> d \<le> days_in_month y m
               then Inr \<lparr>year = y, month = m, day = d, hour = h, minute = mi, second = sec\<rparr>
               else Inl ValueError
           | _ \<Rightarrow> Inl ValueError))"

text \<open>
  The second element of the \<open>date\<close> pair as the function receives it: a whole
  number, or the list of hours and minutes its comment describes. A float, which
  \<open>timedelta\<close> accepts too, is not modelled.
\<close>

datatype pyvalue = PyInt int | PyList "int list"

definition timedelta_hours :: "pyvalue \<Rightarrow> error + int" where
  "timedelta_hours v =
     (case v of
        PyList xs \<Rightarrow> Inl TypeError
      | PyInt h \<Rightarrow>
          if 999999999 < \<bar>(h * 3600) div 86400\<bar> then Inl OverflowError
          else Inr (h * 3600))"

definition add_seconds :: "datetime \<Rightarrow> int \<Rightarrow> error + datetime" where
  "add_seconds dt delta =
     (let total = int (ymd2ord (year dt) (month dt) (day dt)) * 86400
                  + int (hour dt * 3600 + minute dt * 60 + second dt) + delta;
          ordinal = total div 86400;
          secs = nat (total mod 86400)
      in if ordinal < 1 \<or> 3652059 < ordinal then Inl OverflowError
         else (case ord2ymd (nat ordinal) of
                 (y, m, d) \<Rightarrow>
                   Inr \<lparr>year = y, month = m, day = d, hour = secs div 3600,
                        minute = (secs mod 3600) div 60, second = secs mod 60\<rparr>))"

definition pad2 :: "nat \<Rightarrow> string" where
  "pad2 n = [digit_char (n div 10 mod 10), digit_char (n mod 10)]"

definition month_abbr :: "nat \<Rightarrow> string" where
  "month_abbr m =
     [''Jan'', ''Feb'', ''Mar'', ''Apr'', ''May'', ''Jun'',
      ''Jul'', ''Aug'', ''Sep'', ''Oct'', ''Nov'', ''Dec''] ! (m - 1)"

definition strftime :: "datetime \<Rightarrow> string" where
  "strftime dt =
     pad2 (day dt) @ '' '' @ month_abbr (month dt) @ '' '' @ show_nat (year dt) @ '', ''
     @ pad2 (hour dt) @ '':'' @ pad2 (minute dt) @ '':'' @ pad2 (second dt)"

text \<open>
  \<^verbatim>\<open>
  def getHumanReadableDate(date):
    # date[1] -> list of timezone difference to localzone, Turkey's is UTC 3.00,
    #            so it is [3, 0] representing hours and minutes by default.
    rawDate, localTimezone = date
    machineDate = datetime.datetime.strptime(
        rawDate.split('.')[0],
        "%Y-%m-%dT%H:%M:%S") + datetime.timedelta(hours=localTimezone)
    return machineDate.strftime("%d %b %Y, %H:%M:%S")
  \<close>
  The left operand of the sum is evaluated first, then the right one, then the sum.
\<close>

definition getHumanReadableDate :: "string \<times> pyvalue \<Rightarrow> error + string" where
  "getHumanReadableDate dt =
     (case dt of (rawDate, localTimezone) \<Rightarrow>
        (case strptime (takeWhile (\<lambda>c. c \<noteq> CHR ''.'') rawDate) of
           Inl e \<Rightarrow> Inl e
         | Inr parsed \<Rightarrow>
             (case timedelta_hours localTimezone of
                Inl e \<Rightarrow> Inl e
              | Inr delta \<Rightarrow>
                  (case add_seconds parsed delta of
                     Inl e \<Rightarrow> Inl e
                   | Inr machineDate \<Rightarrow> Inr (strftime machineDate)))))"

section \<open>The article assembler\<close>

text \<open>
  \<^verbatim>\<open>
  def __init__(self, author, topic, subject, date, raw_msg, raw_html, mention_manager):
    self.author_username = author[0]
    self.author_displayname = author[1]
    ...
    self.date = getHumanReadableDate(date)
    ...
    self.broken = False
    self.content = None
    self.is_plus_one = None
  \<close>
\<close>

definition newsArticle ::
  "string \<times> string \<Rightarrow> string \<Rightarrow> string \<Rightarrow> string \<times> pyvalue \<Rightarrow> string \<Rightarrow> string
   \<Rightarrow> error + article" where
  "newsArticle author tp subj dt msg html =
     (case getHumanReadableDate dt of
        Inl e \<Rightarrow> Inl e
      | Inr d \<Rightarrow>
          Inr \<lparr>author_username = fst author, author_displayname = snd author,
               topic = tp, subject = subj, date = d, raw_msg = msg, raw_html = html,
               broken = False, content = None, is_plus_one = None\<rparr>)"

text \<open>\<open>html.escape(s)\<close> with its default \<open>quote=True\<close>.\<close>

definition escape_char :: "char \<Rightarrow> string" where
  "escape_char c =
     (if c = CHR ''&'' then ''&amp;''
      else if c = CHR ''<'' then ''&lt;''
      else if c = CHR ''>'' then ''&gt;''
      else if c = CHR 0x22 then ''&quot;''
      else if c = CHR 0x27 then ''&#x27;''
      else [c])"

definition html_escape :: "string \<Rightarrow> string" where
  "html_escape s = concat (map escape_char s)"

definition show_bool :: "bool \<Rightarrow> string" where
  "show_bool b = (if b then ''True'' else ''False'')"

text \<open>
  \<^verbatim>\<open>
  def makeHeader(self):
    hdr = f"From: {self.author_username}({self.author_displayname})\r\n"\
        f"Newsgroup: {self.topic}\r\n"\
        f"Subject: {self.subject}\r\n"\
        f"Date: {self.date}\r\n"\
        f"is_plus_one: {self.isPlusOne()}"
    return "<code>" + html.escape(hdr) + "</code>\n\n"
  \<close>
  The call of \<open>isPlusOne\<close> may fill the cache, so the object is returned too.
\<close>

definition crlf :: string where
  "crlf = [CHR 0x0D, CHR 0x0A]"

definition makeHeader :: "article \<Rightarrow> string \<times> article" where
  "makeHeader a =
     (case article_isPlusOne a of
        (b, a1) \<Rightarrow>
          (''<code>''
           @ html_escape
               (''From: '' @ author_username a @ ''('' @ author_displayname a @ '')'' @ crlf
                @ ''Newsgroup: '' @ topic a @ crlf
                @ ''Subject: '' @ subject a @ crlf
                @ ''Date: '' @ date a @ crlf
                @ ''is_plus_one: '' @ show_bool b)
           @ ''</code>'' @ [CHR 0x0A, CHR 0x0A], a1))"

text \<open>
  What lies outside \<open>newsparser.py\<close> is a parameter of the assembler: the emoji
  table; the scanner of \<open>HTMLParser.feed\<close>, which delivers the tokens of the raw
  HTML in order and may stop with an exception after the last one it delivers;
  and \<open>mention_manager.parseMentions\<close>, which acts on a state of its own and may
  raise.
\<close>

record 'm env =
  emoji_table :: "string \<rightharpoonup> string"
  scanner :: "string \<Rightarrow> token list \<times> error option"
  parseMentions :: "string \<Rightarrow> string \<Rightarrow> 'm \<Rightarrow> 'm \<times> error option"

text \<open>
  The article, the mention manager's state and what \<open>print\<close> has written so far.
\<close>

record 'm system =
  art :: article
  mentions :: 'm
  printed :: "error list"

text \<open>\<^verbatim>\<open>p = articleParser(); p.feed(self.raw_html); content = p.get_data()\<close>\<close>

definition feed :: "'m env \<Rightarrow> string \<Rightarrow> error + string" where
  "feed env html =
     (case scanner env html of
        (ts, stopped) \<Rightarrow>
          (case feed_tokens (emoji_table env) ts [] of
             Inl e \<Rightarrow> Inl e
           | Inr fed \<Rightarrow>
               (case stopped of
                  Some e \<Rightarrow> Inl e
                | None \<Rightarrow> Inr (get_data fed))))"

text \<open>
  The body of the \<open>try\<close> statement of \<open>parseMessage\<close>: the article and the mention
  manager as the body leaves them, and the exception it raised or the content it
  assigned.
  \<^verbatim>\<open>
      hdr = self.makeHeader()
      p = articleParser()
      p.feed(self.raw_html)
      content = p.get_data()
      self.mention_manager.parseMentions(content, self.topic)
      self.content = hdr + content
  \<close>
\<close>

definition try_body :: "'m env \<Rightarrow> article \<Rightarrow> 'm \<Rightarrow> article \<times> 'm \<times> (error + string)" where
  "try_body env a m =
     (case makeHeader a of
        (hdr, a1) \<Rightarrow>
          (case feed env (raw_html a1) of
             Inl e \<Rightarrow> (a1, m, Inl e)
           | Inr body \<Rightarrow>
               (case parseMentions env body (topic a1) m of
                  (m1, Some e) \<Rightarrow> (a1, m1, Inl e)
                | (m1, None) \<Rightarrow> (a1, m1, Inr (hdr @ body)))))"

text \<open>
  \<^verbatim>\<open>
  def parseMessage(self):
    if self.broken:
      return
    try:
      ...
    except Exception as e:
      print(e, datetime.datetime.now())
      traceback.print_exc()
      self.broken = True
  \<close>
\<close>

definition parseMessage :: "'m env \<Rightarrow> 'm system \<Rightarrow> 'm system" where
  "parseMessage env s =
     (if broken (art s) then s
      else (case try_body env (art s) (mentions s) of
              (a1, m1, Inl e) \<Rightarrow>
                s\<lparr>art := a1\<lparr>broken := True\<rparr>, mentions := m1, printed := printed s @ [e]\<rparr>
            | (a1, m1, Inr c) \<Rightarrow>
                s\<lparr>art := a1\<lparr>content := Some c\<rparr>, mentions := m1\<rparr>))"

text \<open>
  \<^verbatim>\<open>
  def getAsHtml(self):
    if self.content is None:
      self.parseMessage()
    return self.content
  \<close>
\<close>

definition getAsHtml :: "'m env \<Rightarrow> 'm system \<Rightarrow> string option \<times> 'm system" where
  "getAsHtml env s =
     (if content (art s) = None
      then (let s1 = parseMessage env s in (content (art s1), s1))
      else (content (art s), s))"


section \<open>Sample inputs\<close>

definition sample_article :: article where
  "sample_article =
     \<lparr>author_username = ''ada'', author_displayname = ''Ada L'', topic = ''news.cow'',
      subject = ''Hello'', date = ''03 Feb 2020, 21:30:00'', raw_msg = ''+1'',
      raw_html = ''<img src=\"X\"><img src=\"Y\">'', broken = False, content = None,
      is_plus_one = None\<rparr>"

definition sample_markdown :: string where
  "sample_markdown = ''![](upload://a) and ![cap](upload://b)''"

definition adjacent_markdown :: string where
  "adjacent_markdown = ''![](upload://a)![](upload://b) end''"

definition cow_table :: "string \<rightharpoonup> string" where
  "cow_table = map_of [('':cow:'', ''COW''), ('':smile:'', ''SMILE'')]"

definition sample_forest :: "node list" where
  "sample_forest =
     [Elem ''h1'' []
        [Text ''T'',
         Elem ''a'' [(''href'', Some ''u'')] [Elem ''blockquote'' [] [Text ''q'']],
         Elem ''u'' [(''class'', Some ''k'')] [Text ''d'']]]"

definition text_env :: "nat env" where
  "text_env =
     \<lparr>emoji_table = cow_table,
      scanner = (\<lambda>html. ([Data html], None)),
      parseMentions = (\<lambda>body tp m. (Suc m, None))\<rparr>"

definition failing_env :: "nat env" where
  "failing_env =
     \<lparr>emoji_table = cow_table,
      scanner = (\<lambda>html. ([], Some MarkupParseError)),
      parseMentions = (\<lambda>body tp m. (Suc m, None))\<rparr>"

definition sample_system :: "nat system" where
  "sample_system = \<lparr>art = sample_article\<lparr>raw_html := ''hi''\<rparr>, mentions = 0, printed = []\<rparr>"


definition sample_header :: string where
  "sample_header =
     ''<code>From: ada(Ada L)'' @ crlf @ ''Newsgroup: news.cow'' @ crlf
     @ ''Subject: Hello'' @ crlf @ ''Date: 03 Feb 2020, 21:30:00'' @ crlf
     @ ''is_plus_one: True</code>'' @ [CHR 0x0A, CHR 0x0A]"

definition sample_content :: string where
  "sample_content = sample_header @ ''hi''"

definition parsed_system :: "nat system" where
  "parsed_system =
     \<lparr>art = sample_article\<lparr>raw_html := ''hi'', content := Some sample_content,
                                is_plus_one := Some True\<rparr>,
      mentions = 1, printed = []\<rparr>"

section \<open>The plus-one classifier: properties\<close>

lemma startswith_iff: "startswith s p \<longleftrightarrow> (\<exists>rest. s = p @ rest)"
  unfolding startswith_def
  by (metis append_eq_conv_conj append_take_drop_id)

text \<open>
  Claim C9. The classification of a raw body is true exactly when the body starts
  with \<open>+1\<close> and is shorter than 10 characters; it is true on \<open>+1\<close> and false on
  \<open>+1 agreed more\<close> and on \<open>-1 disagree\<close>. An article whose flag is not yet cached
  computes it from its raw body and caches it; once a call has returned, every
  later call returns the same flag and leaves the article as it is, whatever the
  raw body has become.
\<close>

theorem isPlusOne_classification:
  "(isPlusOne msg \<longleftrightarrow> (\<exists>rest. msg = ''+1'' @ rest) \<and> length msg < 10)
   \<and> isPlusOne ''+1'' \<and> \<not> isPlusOne ''+1 agreed more'' \<and> \<not> isPlusOne ''-1 disagree''
   \<and> (is_plus_one a = None \<longrightarrow>
        article_isPlusOne a
        = (isPlusOne (raw_msg a), a\<lparr>is_plus_one := Some (isPlusOne (raw_msg a))\<rparr>))
   \<and> (\<forall>b a1 m. article_isPlusOne a = (b, a1) \<longrightarrow>
        article_isPlusOne (a1\<lparr>raw_msg := m\<rparr>) = (b, a1\<lparr>raw_msg := m\<rparr>))"
proof (intro conjI)
  show "isPlusOne msg \<longleftrightarrow> (\<exists>rest. msg = ''+1'' @ rest) \<and> length msg < 10"
    unfolding isPlusOne_def startswith_iff ..
  show "isPlusOne ''+1''" "\<not> isPlusOne ''+1 agreed more''" "\<not> isPlusOne ''-1 disagree''"
    by (simp_all add: isPlusOne_def startswith_def)
  show "is_plus_one a = None \<longrightarrow>
        article_isPlusOne a
        = (isPlusOne (raw_msg a), a\<lparr>is_plus_one := Some (isPlusOne (raw_msg a))\<rparr>)"
    by (simp add: article_isPlusOne_def Let_def)
  show "\<forall>b a1 m. article_isPlusOne a = (b, a1) \<longrightarrow>
        article_isPlusOne (a1\<lparr>raw_msg := m\<rparr>) = (b, a1\<lparr>raw_msg := m\<rparr>)"
    by (auto simp: article_isPlusOne_def Let_def split: option.splits)
qed

theorem isPlusOne_classification_witness:
  "is_plus_one sample_article = None
   \<and> article_isPlusOne sample_article = (True, sample_article\<lparr>is_plus_one := Some True\<rparr>)
   \<and> article_isPlusOne (sample_article\<lparr>is_plus_one := Some True, raw_msg := ''-1 disagree''\<rparr>)
       = (True, sample_article\<lparr>is_plus_one := Some True, raw_msg := ''-1 disagree''\<rparr>)"
  using isPlusOne_classification [of "''+1''" sample_article]
  by (simp add: sample_article_def article_isPlusOne_def isPlusOne_def startswith_def)

section \<open>The transcoder: properties\<close>

lemma convert_tag_a: "convert_tag ''a'' = Some ''a''"
  by (simp add: convert_tag_def supported_tags_def)

lemma convert_tag_img: "convert_tag ''img'' = None"
  by (simp add: convert_tag_def supported_tags_def tag_mapping_def)

lemma convert_tag_not_img: "convert_tag tag = Some p \<Longrightarrow> tag \<noteq> ''img''"
  by (auto simp: convert_tag_img)

lemma mapped_not_supported:
  "''h1'' \<notin> set supported_tags" "''h2'' \<notin> set supported_tags"
  "''h3'' \<notin> set supported_tags" "''blockquote'' \<notin> set supported_tags"
  by (simp_all add: supported_tags_def)

lemma tag_mapping_cases:
  "tag_mapping tag = Some p \<longleftrightarrow>
     tag \<in> {''h1'', ''h2'', ''h3''} \<and> p = ''b'' \<or> tag = ''blockquote'' \<and> p = ''i''"
  unfolding tag_mapping_def by (simp split: if_splits) blast

lemma convert_tag_cases:
  "convert_tag tag = Some p \<longleftrightarrow>
     tag \<in> set supported_tags \<and> p = tag
     \<or> tag \<in> {''h1'', ''h2'', ''h3''} \<and> p = ''b''
     \<or> tag = ''blockquote'' \<and> p = ''i''"
proof (cases "tag \<in> set supported_tags")
  case True
  then have "tag \<notin> {''h1'', ''h2'', ''h3''}" "tag \<noteq> ''blockquote''"
    using mapped_not_supported by auto
  with True show ?thesis by (auto simp: convert_tag_def)
next
  case False
  then show ?thesis by (simp add: convert_tag_def tag_mapping_cases)
qed

lemma tag_attrs_absent: "k \<notin> fst ` set attrs \<Longrightarrow> tag_attrs attrs k = None"
  unfolding tag_attrs_def
  by (rule map_of_eq_None_iff [THEN iffD2]) auto

lemma handle_starttag_a:
  "handle_starttag emoji ''a'' attrs fed =
     (case dict_get (tag_attrs attrs) ''href'' (Some []) of
        None \<Rightarrow> Inl TypeError
      | Some h \<Rightarrow> Inr (fed @ [''<a href=\"'' @ h @ ''\">'']))"
  by (simp add: handle_starttag_def convert_tag_a attr_str_def Let_def split: option.splits)

lemma handle_starttag_img:
  "handle_starttag emoji ''img'' attrs fed =
     (if dict_get (tag_attrs attrs) ''class'' (Some []) = Some ''emoji''
      then Inr (fed @ [emoji_glyph emoji (tag_attrs attrs)]) else Inr fed)"
  by (simp add: handle_starttag_def convert_tag_img Let_def)

text \<open>
  Claim C10. The start tag of an anchor is always emitted with an \<open>href\<close>
  attribute: an anchor without \<open>href\<close> becomes \<^verbatim>\<open><a href="">\<close>, an anchor whose
  (last) \<open>href\<close> has the value \<open>v\<close> becomes \<^verbatim>\<open><a href="v">\<close>, and whenever the
  handler returns, the fragment it has added is an anchor tag with an \<open>href\<close>. The
  handler does not return for an \<open>href\<close> written without a value: it raises
  \<open>TypeError\<close> and emits nothing.
\<close>

theorem anchor_always_href:
  "(''href'' \<notin> fst ` set attrs \<longrightarrow>
      handle_starttag emoji ''a'' attrs fed = Inr (fed @ [''<a href=\"\">'']))
   \<and> (\<forall>v. tag_attrs attrs ''href'' = Some (Some v) \<longrightarrow>
      handle_starttag emoji ''a'' attrs fed = Inr (fed @ [''<a href=\"'' @ v @ ''\">'']))
   \<and> (tag_attrs attrs ''href'' = Some None \<longrightarrow>
      handle_starttag emoji ''a'' attrs fed = Inl TypeError)
   \<and> (\<forall>fed'. handle_starttag emoji ''a'' attrs fed = Inr fed' \<longrightarrow>
      (\<exists>h. fed' = fed @ [''<a href=\"'' @ h @ ''\">'']))"
proof (intro conjI allI impI)
  assume "''href'' \<notin> fst ` set attrs"
  then have "tag_attrs attrs ''href'' = None" by (rule tag_attrs_absent)
  then show "handle_starttag emoji ''a'' attrs fed = Inr (fed @ [''<a href=\"\">''])"
    by (simp add: handle_starttag_a dict_get_def)
next
  fix v assume "tag_attrs attrs ''href'' = Some (Some v)"
  then show "handle_starttag emoji ''a'' attrs fed = Inr (fed @ [''<a href=\"'' @ v @ ''\">''])"
    by (simp add: handle_starttag_a dict_get_def)
next
  assume "tag_attrs attrs ''href'' = Some None"
  then show "handle_starttag emoji ''a'' attrs fed = Inl TypeError"
    by (simp add: handle_starttag_a dict_get_def)
next
  fix fed' assume "handle_starttag emoji ''a'' attrs fed = Inr fed'"
  then show "\<exists>h. fed' = fed @ [''<a href=\"'' @ h @ ''\">'']"
    by (auto simp: handle_starttag_a split: option.splits)
qed

theorem anchor_always_href_witness:
  "''href'' \<notin> fst ` set [(''title'', Some ''t'')]
   \<and> handle_starttag cow_table ''a'' [(''title'', Some ''t'')] [''x''] = Inr [''x'', ''<a href=\"\">'']
   \<and> tag_attrs [(''href'', Some ''u''), (''id'', Some ''i'')] ''href'' = Some (Some ''u'')
   \<and> handle_starttag cow_table ''a'' [(''href'', Some ''u''), (''id'', Some ''i'')] []
       = Inr [''<a href=\"u\">'']
   \<and> tag_attrs [(''href'', None)] ''href'' = Some None
   \<and> handle_starttag cow_table ''a'' [(''href'', None)] [] = Inl TypeError"
  using anchor_always_href [of "[(''title'', Some ''t'')]" cow_table "[''x'']"]
    anchor_always_href [of "[(''href'', Some ''u''), (''id'', Some ''i'')]" cow_table "[]"]
    anchor_always_href [of "[(''href'', None)]" cow_table "[]"]
  by (simp add: tag_attrs_def useful_attrs_def)

text \<open>
  Claim C2, as stated, fails: with \<open>:cow:\<close> mapped to a glyph and the title
  \<open>:nope:\<close> not a key of the table, an emoji image is replaced by the empty
  string, not by the glyph of the default key.
\<close>

theorem emoji_unknown_title_counterexample:
  "cow_table '':nope:'' = None \<and> cow_table '':cow:'' = Some ''COW''
   \<and> handle_starttag cow_table ''img'' [(''class'', Some ''emoji''), (''title'', Some '':nope:'')] []
       = Inr [[]]
   \<and> handle_starttag cow_table ''img'' [(''class'', Some ''emoji''), (''title'', Some '':nope:'')] []
       \<noteq> Inr [''COW'']"
  by (simp add: cow_table_def handle_starttag_img tag_attrs_def useful_attrs_def dict_get_def
      emoji_glyph_def)

text \<open>
  Claim C2, amended. For an \<open>img\<close> start tag whose \<open>class\<close> attribute equals
  \<open>emoji\<close>, the handler emits exactly one fragment, a glyph, and the end tag emits
  nothing. The glyph is the table's entry for the \<open>title\<close> attribute when the title
  is a key of the table, the empty string when the title is present and not a
  key, the table's entry for the default key \<open>:cow:\<close> when the title is absent,
  and the empty string when the title is absent and \<open>:cow:\<close> is not a key.
\<close>

theorem emoji_image_glyph:
  "tag_attrs attrs ''class'' = Some (Some ''emoji'') \<longrightarrow>
     handle_endtag ''img'' fed = fed
     \<and> (\<exists>glyph. handle_starttag emoji ''img'' attrs fed = Inr (fed @ [glyph])
          \<and> (\<forall>t g. tag_attrs attrs ''title'' = Some (Some t) \<and> emoji t = Some g \<longrightarrow> glyph = g)
          \<and> (\<forall>t. tag_attrs attrs ''title'' = Some (Some t) \<and> emoji t = None \<longrightarrow> glyph = [])
          \<and> (tag_attrs attrs ''title'' = Some None \<longrightarrow> glyph = [])
          \<and> (\<forall>g. tag_attrs attrs ''title'' = None \<and> emoji '':cow:'' = Some g \<longrightarrow> glyph = g)
          \<and> (tag_attrs attrs ''title'' = None \<and> emoji '':cow:'' = None \<longrightarrow> glyph = []))"
  by (auto simp: handle_starttag_img handle_endtag_def convert_tag_img dict_get_def emoji_glyph_def
      split: option.splits)

theorem emoji_image_glyph_witness:
  "tag_attrs [(''class'', Some ''emoji''), (''title'', Some '':smile:'')] ''class''
     = Some (Some ''emoji'')
   \<and> handle_starttag cow_table ''img'' [(''class'', Some ''emoji''), (''title'', Some '':smile:'')] []
       = Inr [''SMILE'']
   \<and> handle_starttag cow_table ''img'' [(''class'', Some ''emoji'')] [] = Inr [''COW'']
   \<and> handle_starttag Map.empty ''img'' [(''class'', Some ''emoji'')] [] = Inr [[]]"
  using emoji_image_glyph [of "[(''class'', Some ''emoji''), (''title'', Some '':smile:'')]" "[]" cow_table]
    emoji_image_glyph [of "[(''class'', Some ''emoji'')]" "[]" cow_table]
    emoji_image_glyph [of "[(''class'', Some ''emoji'')]" "[]" Map.empty]
  by (simp add: tag_attrs_def useful_attrs_def cow_table_def)

subsection \<open>The output of a token sequence is the concatenation of its parts\<close>

lemma handle_token_acc:
  "handle_token emoji t fed =
     (case handle_token emoji t [] of Inl e \<Rightarrow> Inl e | Inr r \<Rightarrow> Inr (fed @ r))"
  by (cases t)
     (auto simp: handle_starttag_def handle_endtag_def handle_data_def handle_entityref_def
        Let_def split: option.splits sum.splits)

lemma feed_tokens_acc:
  "feed_tokens emoji ts fed =
     (case feed_tokens emoji ts [] of Inl e \<Rightarrow> Inl e | Inr r \<Rightarrow> Inr (fed @ r))"
proof (induction ts arbitrary: fed)
  case Nil
  show ?case by simp
next
  case (Cons t ts)
  show ?case
  proof (cases "handle_token emoji t []")
    case (Inl e)
    then show ?thesis using handle_token_acc [of emoji t fed] by simp
  next
    case (Inr r)
    then have "handle_token emoji t fed = Inr (fed @ r)"
      using handle_token_acc [of emoji t fed] by simp
    with Inr show ?thesis
      using Cons.IH [of "fed @ r"] Cons.IH [of r]
      by (simp split: sum.splits)
  qed
qed

lemma feed_tokens_append:
  "feed_tokens emoji (ts1 @ ts2) fed =
     (case feed_tokens emoji ts1 fed of Inl e \<Rightarrow> Inl e | Inr f1 \<Rightarrow> feed_tokens emoji ts2 f1)"
  by (induction ts1 arbitrary: fed) (auto split: sum.splits)

lemma transcode_append:
  "transcode emoji (ts1 @ ts2) =
     (case transcode emoji ts1 of
        Inl e \<Rightarrow> Inl e
      | Inr o1 \<Rightarrow> (case transcode emoji ts2 of Inl e \<Rightarrow> Inl e | Inr o2 \<Rightarrow> Inr (o1 @ o2)))"
proof (cases "feed_tokens emoji ts1 []")
  case (Inl e)
  then show ?thesis by (simp add: transcode_def feed_tokens_append)
next
  case (Inr f1)
  then show ?thesis
    using feed_tokens_acc [of emoji ts2 f1]
    by (simp add: transcode_def feed_tokens_append get_data_def split: sum.splits)
qed

lemma transcode_entityref: "transcode emoji [EntityRef name] = Inr (''&'' @ name @ '';'')"
  by (simp add: transcode_def handle_entityref_def get_data_def)

text \<open>
  An entity reference delivered to \<open>handle_entityref\<close> stays in place as markup:
  the output of a token sequence holding such a token is the output of the tokens
  before it, \<open>&name;\<close>, and the output of the tokens after it (or the exception
  one of the two parts raises).
\<close>

lemma entityref_in_place:
  "transcode emoji (ts1 @ EntityRef name # ts2) =
       (case transcode emoji ts1 of
          Inl e \<Rightarrow> Inl e
        | Inr o1 \<Rightarrow>
            (case transcode emoji ts2 of
               Inl e \<Rightarrow> Inl e
             | Inr o2 \<Rightarrow> Inr (o1 @ ''&'' @ name @ '';'' @ o2)))"
proof -
  have "transcode emoji (ts1 @ EntityRef name # ts2)
        = transcode emoji (ts1 @ ([EntityRef name] @ ts2))" by simp
  also have "\<dots> = (case transcode emoji ts1 of
          Inl e \<Rightarrow> Inl e
        | Inr o1 \<Rightarrow>
            (case transcode emoji ts2 of
               Inl e \<Rightarrow> Inl e
             | Inr o2 \<Rightarrow> Inr (o1 @ ''&'' @ name @ '';'' @ o2)))"
    unfolding transcode_append [of emoji ts1] transcode_append [of emoji "[EntityRef name]"]
      transcode_entityref
    by (simp split: sum.splits)
  finally show ?thesis .
qed

text \<open>
  A character reference delivered to the inherited \<open>handle_charref\<close> leaves no
  output: the token sequence transcodes as if the token were not there.
\<close>

lemma charref_dropped:
  "transcode emoji (ts1 @ CharRef name # ts2) = transcode emoji (ts1 @ ts2)"
proof -
  have "transcode emoji [CharRef name] = Inr []"
    by (simp add: transcode_def get_data_def)
  moreover have "transcode emoji (ts1 @ CharRef name # ts2)
        = transcode emoji (ts1 @ ([CharRef name] @ ts2))" by simp
  ultimately show ?thesis
    unfolding transcode_append [of emoji ts1] transcode_append [of emoji "[CharRef name]"]
    by (simp split: sum.splits)
qed

text \<open>
  Claim C8, at two inputs the code can receive. The parser replaces the
  references in an attribute value before it calls \<open>handle_starttag\<close>, so for
  \<^verbatim>\<open><a href="?a=1&amp;b=2">x</a>\<close> the handler receives the value \<^verbatim>\<open>?a=1&b=2\<close>
  and echoes it: the reference \<^verbatim>\<open>&amp;\<close> of the input is decoded in the output.
  A numeric reference goes to \<open>handle_charref\<close>, which the class does not
  override, so for \<^verbatim>\<open>a &#62; b\<close> the reference leaves no output at all. Only a
  named reference in text, as in \<^verbatim>\<open>a &gt; b\<close>, is kept as markup.
\<close>

theorem references_not_preserved:
  "transcode cow_table [StartTag ''a'' [(''href'', Some ''?a=1&b=2'')], Data ''x'', EndTag ''a'']
     = Inr ''<a href=\"?a=1&b=2\">x</a>''
   \<and> transcode cow_table [Data ''a '', CharRef ''62'', Data '' b''] = Inr ''a  b''
   \<and> transcode cow_table [Data ''a '', EntityRef ''gt'', Data '' b''] = Inr ''a &gt; b''"
  by (simp add: transcode_def handle_starttag_a handle_endtag_def convert_tag_a handle_data_def
      handle_entityref_def get_data_def tag_attrs_def useful_attrs_def dict_get_def)

lemma transcode_starttag:
  "transcode emoji [StartTag tag attrs] =
     (case convert_tag tag of
        Some p \<Rightarrow>
          (if tag = ''a'' \<and> dict_get (tag_attrs attrs) ''href'' (Some []) = None
           then Inl TypeError else Inr (open_tag tag p attrs))
      | None \<Rightarrow>
          Inr (if tag = ''img'' \<and> dict_get (tag_attrs attrs) ''class'' (Some []) = Some ''emoji''
               then emoji_glyph emoji (tag_attrs attrs) else []))"
  by (auto simp: transcode_def handle_starttag_def attr_str_def open_tag_def get_data_def Let_def
      dest: convert_tag_not_img split: option.splits)

lemma transcode_endtag:
  "transcode emoji [EndTag tag] =
     Inr (case convert_tag tag of Some p \<Rightarrow> close_tag p | None \<Rightarrow> [])"
  by (simp add: transcode_def handle_endtag_def close_tag_def get_data_def split: option.splits)

lemma transcode_nil: "transcode emoji [] = Inr []"
  by (simp add: transcode_def get_data_def)

lemma transcode_concat:
  assumes "\<And>x. x \<in> set xs \<Longrightarrow> transcode emoji (f x) = (if ok x then Inr (g x) else Inl TypeError)"
  shows "transcode emoji (concat (map f xs))
         = (if list_all ok xs then Inr (concat (map g xs)) else Inl TypeError)"
  using assms
proof (induction xs)
  case Nil
  show ?case by (simp add: transcode_nil)
next
  case (Cons x xs)
  then show ?case by (simp add: transcode_append)
qed

lemma transcode_node:
  "transcode emoji (tokens_of n) = (if href_valued n then Inr (render emoji n) else Inl TypeError)"
proof (induction n)
  case (Elem tag attrs kids)
  have kids: "transcode emoji (concat (map tokens_of kids))
         = (if list_all href_valued kids then Inr (concat (map (render emoji) kids)) else Inl TypeError)"
    by (rule transcode_concat) (use Elem.IH in simp)
  have "transcode emoji (tokens_of (Elem tag attrs kids))
        = transcode emoji ([StartTag tag attrs] @ (concat (map tokens_of kids) @ [EndTag tag]))"
    by simp
  also have "\<dots> = (if href_valued (Elem tag attrs kids)
                    then Inr (render emoji (Elem tag attrs kids)) else Inl TypeError)"
    unfolding transcode_append [of emoji "[StartTag tag attrs]"]
      transcode_append [of emoji "concat (map tokens_of kids)"] kids
      transcode_starttag transcode_endtag
    by (auto simp: convert_tag_a convert_tag_img split: option.splits)
  finally show ?case .
next
  case (Text d)
  show ?case by (simp add: transcode_def handle_data_def get_data_def)
next
  case (Entity n)
  show ?case by (simp add: transcode_entityref)
qed

text \<open>
  Claim C6. Both tag handlers take the same decision \<open>convert_tag\<close>: an
  allow-listed tag is kept, \<open>h1\<close>, \<open>h2\<close>, \<open>h3\<close> become \<open>b\<close>, \<open>blockquote\<close> becomes
  \<open>i\<close>, and no other tag is converted. The output for a validly nested fragment
  is its balanced rendering: every element with a kept or converted tag is its
  open tag, the output of its children and the matching close tag, in document
  order, and every other element contributes neither tag. (The only fragments
  without output are those with an anchor whose \<open>href\<close> has no value: the start
  tag handler raises \<open>TypeError\<close>.)
\<close>

theorem transcode_balanced:
  "(convert_tag tag = Some p \<longleftrightarrow>
      tag \<in> set supported_tags \<and> p = tag
      \<or> tag \<in> {''h1'', ''h2'', ''h3''} \<and> p = ''b''
      \<or> tag = ''blockquote'' \<and> p = ''i'')
   \<and> (convert_tag tag = Some p \<longrightarrow>
        render emoji (Elem tag attrs kids)
        = open_tag tag p attrs @ render_forest emoji kids @ close_tag p)
   \<and> (convert_tag tag = None \<and> tag \<noteq> ''img'' \<longrightarrow>
        render emoji (Elem tag attrs kids) = render_forest emoji kids)
   \<and> transcode emoji (tokens_of_forest ns)
       = (if list_all href_valued ns then Inr (render_forest emoji ns) else Inl TypeError)"
proof (intro conjI)
  show "convert_tag tag = Some p \<longleftrightarrow>
      tag \<in> set supported_tags \<and> p = tag
      \<or> tag \<in> {''h1'', ''h2'', ''h3''} \<and> p = ''b''
      \<or> tag = ''blockquote'' \<and> p = ''i''"
    by (rule convert_tag_cases)
  show "convert_tag tag = Some p \<longrightarrow>
        render emoji (Elem tag attrs kids)
        = open_tag tag p attrs @ render_forest emoji kids @ close_tag p"
    by (simp add: render_forest_def)
  show "convert_tag tag = None \<and> tag \<noteq> ''img'' \<longrightarrow>
        render emoji (Elem tag attrs kids) = render_forest emoji kids"
    by (simp add: render_forest_def)
  show "transcode emoji (tokens_of_forest ns)
       = (if list_all href_valued ns then Inr (render_forest emoji ns) else Inl TypeError)"
    unfolding tokens_of_forest_def render_forest_def
    by (rule transcode_concat) (simp add: transcode_node)
qed

theorem transcode_balanced_witness:
  "list_all known_tags sample_forest \<and> list_all href_valued sample_forest
   \<and> transcode cow_table (tokens_of_forest sample_forest)
       = Inr ''<b>T<a href=\"u\"><i>q</i></a><u>d</u></b>''
   \<and> transcode cow_table (tokens_of_forest [Elem ''div'' [] [Elem ''h2'' [] [Text ''x'']]])
       = Inr ''<b>x</b>''"
  using transcode_balanced [of "''h1''" "''b''" cow_table "[]" "[]" sample_forest]
    transcode_balanced [of "''h1''" "''b''" cow_table "[]" "[]" "[Elem ''div'' [] [Elem ''h2'' [] [Text ''x'']]]"]
  by (simp add: sample_forest_def render_forest_def open_tag_def close_tag_def convert_tag_def
      supported_tags_def tag_mapping_def tag_attrs_def useful_attrs_def dict_get_def)

section \<open>The link correlator: properties\<close>

lemma slice_nat: "slice s (int a) (int b) = take (b - a) (drop a s)"
proof (cases "a < length s")
  case True
  then show ?thesis
    by (cases "b \<le> length s") (simp_all add: slice_def norm_idx_def Let_def min_def)
next
  case False
  then show ?thesis by (simp add: slice_def norm_idx_def Let_def)
qed

lemma slice_from_nat: "slice_from s (int a) = drop a s"
  by (simp add: slice_from_def norm_idx_def min_def)

lemma find_from_Suc: "find_from sub (Suc i) s = map_option Suc (find_from sub i s)"
  by (induction s arbitrary: i) auto

lemma find_opt_Nil: "find_opt [] sub = (if sub = [] then Some 0 else None)"
  by (simp add: find_opt_def)

lemma find_opt_Cons:
  "find_opt (c # cs) sub =
     (if startswith (c # cs) sub then Some 0 else map_option Suc (find_opt cs sub))"
  by (simp add: find_opt_def find_from_Suc)

lemma startswith_length:
  assumes "startswith s p"
  shows "length p \<le> length s"
proof -
  from assms have "length (take (length p) s) = length p"
    by (simp add: startswith_def)
  then show ?thesis by simp
qed

lemma find_opt_SomeD:
  "find_opt s sub = Some i \<Longrightarrow> i + length sub \<le> length s \<and> startswith (drop i s) sub"
proof (induction s arbitrary: i)
  case Nil
  then show ?case by (simp add: find_opt_Nil startswith_def split: if_splits)
next
  case (Cons c cs)
  show ?case
  proof (cases "startswith (c # cs) sub")
    case True
    with Cons.prems have "i = 0" by (simp add: find_opt_Cons)
    with True show ?thesis using startswith_length [OF True] by simp
  next
    case False
    with Cons.prems obtain k where k: "find_opt cs sub = Some k" "i = Suc k"
      by (auto simp: find_opt_Cons)
    from Cons.IH [OF k(1)] k(2) show ?thesis by simp
  qed
qed

lemma find_quote_SomeD:
  assumes "find_opt s ''\"'' = Some j"
  shows "j < length s" and "drop j s = CHR 0x22 # drop (Suc j) s"
proof -
  from find_opt_SomeD [OF assms] have len: "j + 1 \<le> length s"
    and sw: "startswith (drop j s) ''\"''" by simp_all
  from len show "j < length s" by simp
  then have "drop j s = s ! j # drop (Suc j) s" by (rule Cons_nth_drop_Suc [symmetric])
  moreover from sw this have "s ! j = CHR 0x22" by (simp add: startswith_def)
  ultimately show "drop j s = CHR 0x22 # drop (Suc j) s" by simp
qed

lemma img_urls_skip:
  assumes "c \<noteq> CHR ''<''"
  shows "img_urls (c # s) = img_urls s"
proof -
  from assms have ns: "\<not> startswith (c # s) img_tag"
    by (auto simp: startswith_def img_tag_def)
  show ?thesis
  proof (cases "find_opt s img_tag")
    case None
    with ns show ?thesis
      by (simp add: img_urls.simps [of "c # s"] img_urls.simps [of s] find_opt_Cons)
  next
    case (Some i)
    with ns show ?thesis
      by (simp add: img_urls.simps [of "c # s"] img_urls.simps [of s] find_opt_Cons)
  qed
qed

lemma next_link_found:
  assumes i: "find_opt html img_tag = Some i"
    and j: "find_opt (drop (i + length img_tag) html) ''\"'' = Some j"
  shows "next_link html
         = (take j (drop (i + length img_tag) html), drop (i + length img_tag + j) html)"
proof -
  have start: "find_str html img_tag + int (length img_tag) = int (i + length img_tag)"
    using i by (simp add: find_str_def)
  have "slice_from html (int (i + length img_tag)) = drop (i + length img_tag) html"
    by (rule slice_from_nat)
  then have len: "find_str (slice_from html (int (i + length img_tag))) ''\"'' = int j"
    using j by (simp only: find_str_def option.case)
  have "int (i + length img_tag) + int j = int (i + length img_tag + j)" by simp
  then show ?thesis
    unfolding next_link_def start Let_def len
    by (simp only: slice_nat slice_from_nat) simp
qed

lemma img_urls_Cons:
  assumes "img_urls html = u # q"
  shows "fst (next_link html) = u \<and> img_urls (snd (next_link html)) = q"
proof -
  from assms obtain i where i: "find_opt html img_tag = Some i"
    by (cases "find_opt html img_tag") (simp_all add: img_urls.simps [of html])
  let ?rest = "drop (i + length img_tag) html"
  from assms i obtain j where j: "find_opt ?rest ''\"'' = Some j"
    by (cases "find_opt ?rest ''\"''") (simp_all add: img_urls.simps [of html] Let_def)
  from assms i j have u: "u = take j ?rest" and q: "q = img_urls (drop (Suc j) ?rest)"
    by (simp_all add: img_urls.simps [of html] Let_def)
  have nl: "next_link html = (take j ?rest, drop j ?rest)"
    using next_link_found [OF i j] by (simp add: add.commute)
  have "img_urls (drop j ?rest) = img_urls (drop (Suc j) ?rest)"
    using find_quote_SomeD(2) [OF j] img_urls_skip [of "CHR 0x22" "drop (Suc j) ?rest"]
    by simp
  with nl u q show ?thesis by simp
qed

lemma code_urls_prefix:
  "take (length (img_urls html)) (code_urls n html) = take n (img_urls html)"
proof (induction n arbitrary: html)
  case 0
  show ?case by simp
next
  case (Suc n)
  show ?case
  proof (cases "img_urls html")
    case Nil
    then show ?thesis by simp
  next
    case (Cons u q)
    from img_urls_Cons [OF Cons] Suc.IH [of "snd (next_link html)"] Cons
    show ?thesis by simp
  qed
qed

lemma length_code_urls: "length (code_urls n html) = n"
  by (induction n arbitrary: html) simp_all

lemma correlate_spec_take:
  "correlate_spec msg ms i cursor (take (length ms) queue) = correlate_spec msg ms i cursor queue"
proof (induction ms arbitrary: i cursor queue)
  case Nil
  show ?case by simp
next
  case (Cons m ms)
  show ?case by (cases queue) (simp_all add: Cons.IH)
qed

lemma parseLinks_loop_spec:
  "\<exists>parsed' c' lp' html' r.
     parseLinks_loop msg ms (parsed, c, lp, html) = (parsed', c', lp', html')
     \<and> correlate_spec msg ms c lp (code_urls (length ms) html) = Inr r
     \<and> parsed' @ drop lp' msg = parsed @ r"
proof (induction ms arbitrary: parsed c lp html)
  case Nil
  show ?case by simp
next
  case (Cons m ms)
  obtain u h where nl: "next_link html = (u, h)" by (cases "next_link html")
  let ?seg = "take (span_start m - lp) (drop lp msg) @ ''['' @ link_name msg m c @ '']('' @ u @ '')''"
  from Cons.IH [of "parsed @ ?seg" "Suc c" "span_end m" h]
  obtain parsed' c' lp' html' r where
    loop: "parseLinks_loop msg ms (parsed @ ?seg, Suc c, span_end m, h) = (parsed', c', lp', html')"
    and spec: "correlate_spec msg ms (Suc c) (span_end m) (code_urls (length ms) h) = Inr r"
    and out: "parsed' @ drop lp' msg = (parsed @ ?seg) @ r"
    by blast
  have "parseLinks_loop msg (m # ms) (parsed, c, lp, html) = (parsed', c', lp', html')"
    using loop nl by (simp add: slice_nat)
  moreover have "correlate_spec msg (m # ms) c lp (code_urls (length (m # ms)) html)
                 = Inr (?seg @ r)"
    using spec nl by simp
  moreover have "parsed' @ drop lp' msg = parsed @ (?seg @ r)"
    using out by simp
  ultimately show ?case by blast
qed

lemma parseLinks_code_urls:
  "correlate_spec msg (finditer msg) 1 0 (code_urls (length (finditer msg)) (raw_html a))
   = Inr (fst (parseLinks a msg))"
proof -
  from parseLinks_loop_spec [of msg "finditer msg" "[]" 1 0 "raw_html a"]
  obtain parsed' c' lp' html' r where
    "parseLinks_loop msg (finditer msg) ([], 1, 0, raw_html a) = (parsed', c', lp', html')"
    "correlate_spec msg (finditer msg) 1 0 (code_urls (length (finditer msg)) (raw_html a)) = Inr r"
    "parsed' @ drop lp' msg = [] @ r"
    by blast
  then show ?thesis by (simp add: parseLinks_def slice_from_nat)
qed

subsection \<open>What a match of the pattern is\<close>

lemma match_at_SomeD:
  assumes "match_at s = Some (nl, ml)"
  shows "\<exists>alt url rest.
           s = ''!['' @ alt @ '']('' @ url @ '')'' @ rest
           \<and> CHR '']'' \<notin> set alt \<and> CHR '')'' \<notin> set url
           \<and> nl = length alt \<and> ml = 5 + length alt + length url"
proof -
  from assms obtain r where s: "s = CHR ''!'' # CHR ''['' # r"
    by (auto simp: match_at_def split: list.splits if_splits)
  let ?alt = "takeWhile (\<lambda>c. c \<noteq> CHR '']'') r"
  from assms s obtain r2 where d1: "dropWhile (\<lambda>c. c \<noteq> CHR '']'') r = CHR '']'' # CHR ''('' # r2"
    by (auto simp: match_at_def Let_def split: list.splits if_splits)
  let ?url = "takeWhile (\<lambda>c. c \<noteq> CHR '')'') r2"
  from assms s d1 obtain r3 where d2: "dropWhile (\<lambda>c. c \<noteq> CHR '')'') r2 = CHR '')'' # r3"
    and n: "nl = length ?alt" "ml = 5 + length ?alt + length ?url"
    by (auto simp: match_at_def Let_def split: list.splits if_splits)
  have "r = ?alt @ dropWhile (\<lambda>c. c \<noteq> CHR '']'') r" by simp
  moreover have "r2 = ?url @ dropWhile (\<lambda>c. c \<noteq> CHR '')'') r2" by simp
  ultimately have "s = ''!['' @ ?alt @ '']('' @ ?url @ '')'' @ r3"
    using s d1 d2 by (metis append_Cons append_Nil)
  moreover have "CHR '']'' \<notin> set ?alt" "CHR '')'' \<notin> set ?url"
    by (auto dest: set_takeWhileD)
  ultimately show ?thesis using n by blast
qed

lemma finditer_from_placeholder:
  "m \<in> set (finditer_from msg pos) \<Longrightarrow>
     \<exists>alt url rest.
       drop (span_start m) msg = ''!['' @ alt @ '']('' @ url @ '')'' @ rest
       \<and> CHR '']'' \<notin> set alt \<and> CHR '')'' \<notin> set url
       \<and> name_start m = span_start m + 2 \<and> name_end m = name_start m + length alt
       \<and> span_end m = span_start m + 5 + length alt + length url"
proof (induction msg pos rule: finditer_from.induct)
  case (1 msg pos)
  show ?case
  proof (cases "length msg \<le> pos")
    case True
    with "1.prems" show ?thesis by (simp add: finditer_from.simps [of msg pos])
  next
    case False
    show ?thesis
    proof (cases "match_at (drop pos msg)")
      case None
      with False "1.prems" have "m \<in> set (finditer_from msg (Suc pos))"
        by (simp add: finditer_from.simps [of msg pos])
      with "1.IH"(1) [OF False None] show ?thesis .
    next
      case (Some p)
      obtain nl ml where p: "p = (nl, ml)" by (cases p)
      from False Some p "1.prems"
      have "m = \<lparr>span_start = pos, span_end = pos + ml, name_start = pos + 2,
                  name_end = pos + 2 + nl\<rparr>
            \<or> m \<in> set (finditer_from msg (pos + ml))"
        by (simp add: finditer_from.simps [of msg pos])
      then show ?thesis
      proof
        assume m: "m = \<lparr>span_start = pos, span_end = pos + ml, name_start = pos + 2,
                        name_end = pos + 2 + nl\<rparr>"
        from match_at_SomeD [of "drop pos msg" nl ml] Some p
        obtain alt url rest where
          "drop pos msg = ''!['' @ alt @ '']('' @ url @ '')'' @ rest"
          "CHR '']'' \<notin> set alt" "CHR '')'' \<notin> set url"
          "nl = length alt" "ml = 5 + length alt + length url"
          by auto
        then show ?thesis
          unfolding m by (intro exI [of _ alt] exI [of _ url] exI [of _ rest]) simp
      next
        assume "m \<in> set (finditer_from msg (pos + ml))"
        with "1.IH"(2) [OF False Some [unfolded p] refl] show ?thesis by simp
      qed
    qed
  qed
qed

lemma link_name_placeholder:
  assumes "drop (span_start m) msg = ''!['' @ alt @ rest"
    and "name_start m = span_start m + 2" and "name_end m = name_start m + length alt"
  shows "link_name msg m i = (if alt = [] then ''Link '' @ show_nat i else alt)"
proof -
  have "drop (name_start m) msg = drop 2 (drop (span_start m) msg)"
    using assms(2) by (simp add: add.commute)
  also have "\<dots> = alt @ rest" using assms(1) by simp
  finally have "take (length alt) (drop (name_start m) msg) = alt" by simp
  then have "slice msg (int (name_start m)) (int (name_end m)) = alt"
    using assms(3) slice_nat [of msg "name_start m" "name_end m"] by simp
  then show ?thesis by (simp add: link_name_def)
qed

lemma finditer_placeholder:
  assumes "m \<in> set (finditer msg)"
  shows "\<exists>alt url rest.
       drop (span_start m) msg = ''!['' @ alt @ '']('' @ url @ '')'' @ rest
       \<and> CHR '']'' \<notin> set alt \<and> CHR '')'' \<notin> set url
       \<and> span_end m = span_start m + 5 + length alt + length url
       \<and> link_name msg m i = (if alt = [] then ''Link '' @ show_nat i else alt)"
proof -
  from finditer_from_placeholder [OF assms [unfolded finditer_def]]
  obtain alt url rest where
    d: "drop (span_start m) msg = ''!['' @ alt @ '']('' @ url @ '')'' @ rest"
    and a: "CHR '']'' \<notin> set alt" "CHR '')'' \<notin> set url"
    and n: "name_start m = span_start m + 2" "name_end m = name_start m + length alt"
    and e: "span_end m = span_start m + 5 + length alt + length url"
    by blast
  from d have "drop (span_start m) msg = ''!['' @ alt @ ('']('' @ url @ '')'' @ rest)" by simp
  from link_name_placeholder [OF this n]
  have "link_name msg m i = (if alt = [] then ''Link '' @ show_nat i else alt)" .
  with d a e show ?thesis by blast
qed

lemma takeWhile_until: "c \<notin> set xs \<Longrightarrow> takeWhile (\<lambda>x. x \<noteq> c) (xs @ c # ys) = xs"
  by (induction xs) auto

lemma dropWhile_until: "c \<notin> set xs \<Longrightarrow> dropWhile (\<lambda>x. x \<noteq> c) (xs @ c # ys) = c # ys"
  by (induction xs) auto

lemma match_at_complete:
  assumes "s = ''!['' @ alt @ '']('' @ url @ '')'' @ rest"
    and "CHR '']'' \<notin> set alt" and "CHR '')'' \<notin> set url"
  shows "match_at s = Some (length alt, 5 + length alt + length url)"
proof -
  have s: "s = CHR ''!'' # CHR ''['' # (alt @ CHR '']'' # (CHR ''('' # url @ CHR '')'' # rest))"
    using assms(1) by simp
  have u: "CHR ''('' # url @ CHR '')'' # rest = CHR ''('' # (url @ CHR '')'' # rest)" by simp
  show ?thesis
    unfolding s match_at_def
    by (simp add: takeWhile_until [OF assms(2)] dropWhile_until [OF assms(2)]
        takeWhile_until [OF assms(3)] dropWhile_until [OF assms(3)] Let_def)
qed

lemma match_at_Nil: "match_at [] = None"
  by (simp add: match_at_def)

lemma finditer_from_complete:
  "pos \<le> p \<Longrightarrow> match_at (drop p msg) = Some r \<Longrightarrow>
     \<exists>m \<in> set (finditer_from msg pos). span_start m \<le> p \<and> p < span_end m"
proof (induction msg pos rule: finditer_from.induct)
  case (1 msg pos)
  have in_range: "\<not> length msg \<le> pos"
  proof
    assume "length msg \<le> pos"
    with "1.prems"(1) have "drop p msg = []" by simp
    with "1.prems"(2) show False by (simp add: match_at_Nil)
  qed
  show ?case
  proof (cases "match_at (drop pos msg)")
    case None
    with "1.prems" have "p \<noteq> pos" by auto
    with "1.prems"(1) have "Suc pos \<le> p" by simp
    from "1.IH"(1) [OF in_range None this "1.prems"(2)] in_range None
    show ?thesis by (simp add: finditer_from.simps [of msg pos])
  next
    case (Some q)
    obtain nl ml where q: "q = (nl, ml)" by (cases q)
    show ?thesis
    proof (cases "p < pos + ml")
      case True
      with in_range Some q "1.prems"(1) show ?thesis
        by (simp add: finditer_from.simps [of msg pos])
    next
      case False
      then have "pos + ml \<le> p" by simp
      from "1.IH"(2) [OF in_range Some [unfolded q] refl this "1.prems"(2)] in_range Some q
      show ?thesis by (simp add: finditer_from.simps [of msg pos])
    qed
  qed
qed

lemma finditer_from_sorted:
  "sorted_wrt (\<lambda>m m'. span_end m \<le> span_start m') (finditer_from msg pos)
   \<and> (\<forall>m \<in> set (finditer_from msg pos). pos \<le> span_start m)"
proof (induction msg pos rule: finditer_from.induct)
  case (1 msg pos)
  show ?case
  proof (cases "length msg \<le> pos")
    case True
    then show ?thesis by (simp add: finditer_from.simps [of msg pos])
  next
    case False
    show ?thesis
    proof (cases "match_at (drop pos msg)")
      case None
      from "1.IH"(1) [OF False None] False None show ?thesis
        by (auto simp: finditer_from.simps [of msg pos])
    next
      case (Some q)
      obtain nl ml where q: "q = (nl, ml)" by (cases q)
      from "1.IH"(2) [OF False Some [unfolded q] refl] False Some q show ?thesis
        by (auto simp: finditer_from.simps [of msg pos])
    qed
  qed
qed

lemma digit_char_values:
  "digit_char 0 = CHR ''0''" "digit_char 1 = CHR ''1''" "digit_char 2 = CHR ''2''"
  "digit_char 3 = CHR ''3''" "digit_char 4 = CHR ''4''" "digit_char 5 = CHR ''5''"
  "digit_char 6 = CHR ''6''" "digit_char 7 = CHR ''7''" "digit_char 8 = CHR ''8''"
  "digit_char 9 = CHR ''9''" "digit_char (Suc 0) = CHR ''1''"
  by code_simp+

lemma show_nat_digits:
  "show_nat 0 = ''0''" "show_nat 1 = ''1''" "show_nat 2 = ''2''" "show_nat 3 = ''3''"
  "show_nat 4 = ''4''" "show_nat 5 = ''5''" "show_nat 6 = ''6''" "show_nat 7 = ''7''"
  "show_nat 8 = ''8''" "show_nat 9 = ''9''"
  by (simp_all add: show_nat.simps digit_char_values)

lemma show_nat_step:
  assumes "0 < q" and "r < 10"
  shows "show_nat (10 * q + r) = show_nat q @ show_nat r"
proof -
  from assms have "\<not> 10 * q + r < 10" "(10 * q + r) div 10 = q" "(10 * q + r) mod 10 = r"
    by simp_all
  then show ?thesis
    using assms(2) by (simp add: show_nat.simps [of "10 * q + r"] show_nat.simps [of r])
qed

text \<open>
  Claim C7. The scan finds the placeholders \<open>![alt](url)\<close> from left to right:
  every match is a placeholder, the matches are in order and do not overlap, and
  every position where a placeholder starts is the start of a match or lies
  inside one. The display name of the i-th match is its alt text, or \<open>Link i\<close>
  with \<open>i\<close> in decimal when the alt text is empty. When the HTML body holds at
  least as many image sources as the markdown holds placeholders, \<open>parseLinks\<close>
  returns what the specification's correlator returns: the i-th placeholder
  becomes \<open>[displayName](url)\<close> with the i-th image-source URL of the HTML body as
  URL, the text between placeholders is kept, and the text after the last
  placeholder is appended. The witness holds the example of the specification.
\<close>

theorem parseLinks_positional:
  assumes "length (finditer msg) \<le> length (img_urls (raw_html a))"
  shows "LinkCorrelator_spec msg (raw_html a) = Inr (fst (parseLinks a msg))
       \<and> (\<forall>m \<in> set (finditer msg). \<forall>i. \<exists>alt url rest.
             drop (span_start m) msg = ''!['' @ alt @ '']('' @ url @ '')'' @ rest
             \<and> CHR '']'' \<notin> set alt \<and> CHR '')'' \<notin> set url
             \<and> span_end m = span_start m + 5 + length alt + length url
             \<and> link_name msg m i = (if alt = [] then ''Link '' @ show_nat i else alt))
       \<and> sorted_wrt (\<lambda>m m'. span_end m \<le> span_start m') (finditer msg)
       \<and> (\<forall>p alt url rest.
             drop p msg = ''!['' @ alt @ '']('' @ url @ '')'' @ rest
             \<and> CHR '']'' \<notin> set alt \<and> CHR '')'' \<notin> set url
             \<longrightarrow> (\<exists>m \<in> set (finditer msg). span_start m \<le> p \<and> p < span_end m))
       \<and> show_nat 0 = ''0'' \<and> show_nat 1 = ''1'' \<and> show_nat 2 = ''2''
       \<and> show_nat 3 = ''3'' \<and> show_nat 4 = ''4'' \<and> show_nat 5 = ''5''
       \<and> show_nat 6 = ''6'' \<and> show_nat 7 = ''7'' \<and> show_nat 8 = ''8''
       \<and> show_nat 9 = ''9''
       \<and> (\<forall>q r. 0 < q \<and> r < 10 \<longrightarrow> show_nat (10 * q + r) = show_nat q @ show_nat r)"
proof (intro conjI)
  let ?n = "length (finditer msg)"
  have "code_urls ?n (raw_html a) = take ?n (img_urls (raw_html a))"
    using code_urls_prefix [of "raw_html a" ?n] assms
    by (simp add: length_code_urls)
  then show "LinkCorrelator_spec msg (raw_html a) = Inr (fst (parseLinks a msg))"
    using parseLinks_code_urls [of msg a]
    by (simp add: LinkCorrelator_spec_def correlate_spec_take)
  show "\<forall>m \<in> set (finditer msg). \<forall>i. \<exists>alt url rest.
             drop (span_start m) msg = ''!['' @ alt @ '']('' @ url @ '')'' @ rest
             \<and> CHR '']'' \<notin> set alt \<and> CHR '')'' \<notin> set url
             \<and> span_end m = span_start m + 5 + length alt + length url
             \<and> link_name msg m i = (if alt = [] then ''Link '' @ show_nat i else alt)"
    using finditer_placeholder by blast
  show "sorted_wrt (\<lambda>m m'. span_end m \<le> span_start m') (finditer msg)"
    using finditer_from_sorted [of msg 0] by (simp add: finditer_def)
  show "\<forall>p alt url rest.
             drop p msg = ''!['' @ alt @ '']('' @ url @ '')'' @ rest
             \<and> CHR '']'' \<notin> set alt \<and> CHR '')'' \<notin> set url
             \<longrightarrow> (\<exists>m \<in> set (finditer msg). span_start m \<le> p \<and> p < span_end m)"
  proof (intro allI impI)
    fix p alt url rest
    assume h: "drop p msg = ''!['' @ alt @ '']('' @ url @ '')'' @ rest
             \<and> CHR '']'' \<notin> set alt \<and> CHR '')'' \<notin> set url"
    then have "match_at (drop p msg) = Some (length alt, 5 + length alt + length url)"
      by (intro match_at_complete) simp_all
    from finditer_from_complete [OF _ this, of 0]
    show "\<exists>m \<in> set (finditer msg). span_start m \<le> p \<and> p < span_end m"
      by (simp add: finditer_def)
  qed
  show "\<forall>q r. 0 < q \<and> r < 10 \<longrightarrow> show_nat (10 * q + r) = show_nat q @ show_nat r"
    using show_nat_step by blast
qed (rule show_nat_digits)+

text \<open>
  Claim C1, amended. \<open>parseLinks\<close> has no error path: for every markdown text and
  HTML body it returns a string, the markdown with every placeholder rewritten to
  \<open>[displayName](u)\<close>. The strings \<open>u\<close> agree with the queue of image-source URLs
  for as long as the queue lasts; no \<open>LinkCorrelationUnderflow\<close> is raised when the
  queue is exhausted, and what stands in place of the URL from there on is left
  open.
\<close>

theorem parseLinks_never_raises:
  "\<exists>urls. length urls = length (finditer msg)
     \<and> take (length (img_urls (raw_html a))) urls
       = take (length (finditer msg)) (img_urls (raw_html a))
     \<and> correlate_spec msg (finditer msg) 1 0 urls = Inr (fst (parseLinks a msg))"
  using parseLinks_code_urls [of msg a] code_urls_prefix length_code_urls
  by blast


lemma raw_html_sample: "raw_html sample_article = ''<img src=\"X\"><img src=\"Y\">''"
  by (simp add: sample_article_def)

lemma finditer_sample:
  "finditer sample_markdown =
     [\<lparr>span_start = 0, span_end = 15, name_start = 2, name_end = 2\<rparr>,
      \<lparr>span_start = 20, span_end = 38, name_start = 22, name_end = 25\<rparr>]"
  by code_simp

lemma img_urls_sample:
  "img_urls ''<img src=\"X\"><img src=\"Y\">'' = [''X'', ''Y'']"
  "img_urls ''<img src=\"X\">'' = [''X'']"
  by code_simp+

lemma parseLinks_sample:
  "fst (parseLinks sample_article sample_markdown) = ''[Link 1](X) and [cap](Y)''"
  by code_simp

lemma parseLinks_one_image:
  "fst (parseLinks (sample_article\<lparr>raw_html := ''<img src=\"X\">''\<rparr>) sample_markdown)
   = ''[Link 1](X) and [cap]()''"
  by code_simp

lemma spec_one_image:
  "LinkCorrelator_spec sample_markdown ''<img src=\"X\">'' = Inl LinkCorrelationUnderflow"
  by code_simp

lemma parseLinks_adjacent:
  "length (finditer adjacent_markdown) = 2"
  "fst (parseLinks sample_article adjacent_markdown) = ''[Link 1](X)[Link 2](Y) end''"
  by code_simp+

theorem parseLinks_positional_witness:
  "length (finditer sample_markdown) \<le> length (img_urls (raw_html sample_article))
   \<and> LinkCorrelator_spec sample_markdown (raw_html sample_article)
       = Inr ''[Link 1](X) and [cap](Y)''
   \<and> fst (parseLinks sample_article sample_markdown) = ''[Link 1](X) and [cap](Y)''
   \<and> length (finditer adjacent_markdown) \<le> length (img_urls (raw_html sample_article))
   \<and> LinkCorrelator_spec adjacent_markdown (raw_html sample_article)
       = Inr ''[Link 1](X)[Link 2](Y) end''"
proof -
  have h: "length (finditer sample_markdown) \<le> length (img_urls (raw_html sample_article))"
    by (simp add: finditer_sample img_urls_sample raw_html_sample)
  from parseLinks_positional [OF h]
  have s: "LinkCorrelator_spec sample_markdown (raw_html sample_article)
        = Inr (fst (parseLinks sample_article sample_markdown))"
    by (rule conjunct1)
  have h2: "length (finditer adjacent_markdown) \<le> length (img_urls (raw_html sample_article))"
    by (simp add: parseLinks_adjacent img_urls_sample raw_html_sample)
  from parseLinks_positional [OF h2]
  have s2: "LinkCorrelator_spec adjacent_markdown (raw_html sample_article)
        = Inr (fst (parseLinks sample_article adjacent_markdown))"
    by (rule conjunct1)
  from h s h2 s2 show ?thesis by (simp add: parseLinks_sample parseLinks_adjacent)
qed

text \<open>
  Claim C1, as stated, fails: with one image source in the HTML body and two
  placeholders in the markdown, the specification's correlator raises
  \<open>LinkCorrelationUnderflow\<close>, and \<open>parseLinks\<close> returns a string whose second link
  has an empty URL.
\<close>

theorem parseLinks_underflow_counterexample:
  "length (img_urls ''<img src=\"X\">'') < length (finditer sample_markdown)
   \<and> LinkCorrelator_spec sample_markdown ''<img src=\"X\">'' = Inl LinkCorrelationUnderflow
   \<and> fst (parseLinks (sample_article\<lparr>raw_html := ''<img src=\"X\">''\<rparr>) sample_markdown)
       = ''[Link 1](X) and [cap]()''"
  by (simp add: finditer_sample img_urls_sample parseLinks_one_image spec_one_image)

theorem parseLinks_never_raises_witness:
  "\<exists>urls. length urls = Suc (Suc 0) \<and> take (Suc 0) urls = [''X'']
     \<and> correlate_spec sample_markdown (finditer sample_markdown) 1 0 urls
         = Inr ''[Link 1](X) and [cap]()''"
  using parseLinks_never_raises [of sample_markdown "sample_article\<lparr>raw_html := ''<img src=\"X\">''\<rparr>"]
  by (simp add: finditer_sample img_urls_sample parseLinks_one_image)

section \<open>The article assembler: properties\<close>

lemma makeHeader_frame:
  "makeHeader a = (hdr, a1) \<Longrightarrow>
     content a1 = content a \<and> broken a1 = broken a \<and> raw_html a1 = raw_html a \<and> topic a1 = topic a"
  by (auto simp: makeHeader_def article_isPlusOne_def Let_def split: option.splits prod.splits)

lemma try_body_frame:
  assumes "try_body env a m = (a1, m1, r)"
  shows "content a1 = content a \<and> broken a1 = broken a"
proof -
  obtain hdr a' where mh: "makeHeader a = (hdr, a')" by (cases "makeHeader a")
  with assms have "a1 = a'"
    by (auto simp: try_body_def split: sum.splits prod.splits option.splits)
  with makeHeader_frame [OF mh] show ?thesis by simp
qed

lemma getAsHtml_broken:
  assumes "broken (art s)" "content (art s) = None"
  shows "getAsHtml env s = (None, s)"
  using assms by (simp add: getAsHtml_def parseMessage_def)

lemma getAsHtml_parsed:
  assumes "content (art s) = Some c"
  shows "getAsHtml env s = (Some c, s)"
  using assms by (simp add: getAsHtml_def)








lemma getAsHtml_settled:
  "getAsHtml env s = (r, s1) \<Longrightarrow> content (art s1) = r \<and> (r = None \<longrightarrow> broken (art s1))"
  by (auto simp: getAsHtml_def parseMessage_def Let_def
      split: if_splits prod.splits sum.splits dest: try_body_frame)

text \<open>
  Claim C5, as stated, fails for the render operation itself: \<open>parseMessage\<close>
  returns at once only on a broken article. Called on an article that already has
  content, it renders again: the mention manager is called a second time and the
  content is replaced by the rendering of the current raw HTML.
\<close>

theorem parseMessage_rerenders_counterexample:
  "content (art parsed_system) = Some (sample_header @ ''hi'')
   \<and> \<not> broken (art parsed_system)
   \<and> mentions parsed_system = 1
   \<and> parseMessage text_env parsed_system \<noteq> parsed_system
   \<and> mentions (parseMessage text_env parsed_system) = 2
   \<and> content (art (parseMessage text_env
                        (parsed_system\<lparr>art := (art parsed_system)\<lparr>raw_html := ''changed''\<rparr>\<rparr>)))
       = Some (sample_header @ ''changed'')"
proof -
  have m: "mentions (parseMessage text_env parsed_system) = 2"
    by code_simp
  have c: "content (art (parseMessage text_env
                        (parsed_system\<lparr>art := (art parsed_system)\<lparr>raw_html := ''changed''\<rparr>\<rparr>)))
       = Some (sample_header @ ''changed'')"
    by code_simp
  have p: "content (art parsed_system) = Some (sample_header @ ''hi'')"
    "\<not> broken (art parsed_system)" "mentions parsed_system = 1"
    by (simp_all add: parsed_system_def sample_content_def sample_article_def)
  from m p(3) have "parseMessage text_env parsed_system \<noteq> parsed_system" by auto
  with m c p show ?thesis by simp
qed

text \<open>
  Claim C5, amended. A content request on an article that has content returns
  that content and changes nothing, and \<open>parseMessage\<close> on a broken article changes
  nothing. So after any content request, a second one returns the same answer
  and leaves the state as it is (the mention manager is not called again,
  nothing is printed), even when the raw HTML has been changed in between and
  whatever the scanner and the mention manager would do now: through content
  requests the content is rendered at most once.
\<close>

theorem render_once:
  "(content (art s) \<noteq> None \<longrightarrow> getAsHtml env s = (content (art s), s))
   \<and> (broken (art s) \<longrightarrow> parseMessage env s = s)
   \<and> (\<forall>r1 s1 h env'. getAsHtml env s = (r1, s1) \<longrightarrow>
         getAsHtml env' (s1\<lparr>art := (art s1)\<lparr>raw_html := h\<rparr>\<rparr>)
         = (r1, s1\<lparr>art := (art s1)\<lparr>raw_html := h\<rparr>\<rparr>))"
proof (intro conjI allI impI)
  assume "content (art s) \<noteq> None"
  then show "getAsHtml env s = (content (art s), s)" by (auto simp: getAsHtml_def)
next
  assume "broken (art s)"
  then show "parseMessage env s = s" by (simp add: parseMessage_def)
next
  fix r1 s1 h env'
  assume g: "getAsHtml env s = (r1, s1)"
  let ?s = "s1\<lparr>art := (art s1)\<lparr>raw_html := h\<rparr>\<rparr>"
  from getAsHtml_settled [OF g]
  have c: "content (art s1) = r1" and b: "r1 = None \<longrightarrow> broken (art s1)" by simp_all
  show "getAsHtml env' ?s = (r1, ?s)"
  proof (cases r1)
    case None
    with b c have "broken (art ?s)" "content (art ?s) = None" by simp_all
    then show ?thesis using None by (simp add: getAsHtml_broken)
  next
    case (Some x)
    with c have "content (art ?s) = Some x" by simp
    then show ?thesis using Some by (simp add: getAsHtml_parsed)
  qed
qed

lemma getAsHtml_sample: "getAsHtml text_env sample_system = (Some sample_content, parsed_system)"
  by code_simp

theorem render_once_witness:
  "getAsHtml text_env sample_system = (Some sample_content, parsed_system)
   \<and> content (art parsed_system) \<noteq> None
   \<and> getAsHtml failing_env (parsed_system\<lparr>art := (art parsed_system)\<lparr>raw_html := ''changed''\<rparr>\<rparr>)
       = (Some sample_content, parsed_system\<lparr>art := (art parsed_system)\<lparr>raw_html := ''changed''\<rparr>\<rparr>)"
proof -
  from render_once [of sample_system text_env] getAsHtml_sample
  have "getAsHtml failing_env (parsed_system\<lparr>art := (art parsed_system)\<lparr>raw_html := ''changed''\<rparr>\<rparr>)
       = (Some sample_content, parsed_system\<lparr>art := (art parsed_system)\<lparr>raw_html := ''changed''\<rparr>\<rparr>)"
    by blast
  then show ?thesis by (simp add: getAsHtml_sample parsed_system_def)
qed

section \<open>The date formatter: properties\<close>

lemma list_offset_never_formats: "getHumanReadableDate (raw, PyList xs) \<noteq> Inr out"
  by (simp add: getHumanReadableDate_def timedelta_hours_def split: sum.splits)

lemma strptime_sample:
  "strptime ''2020-02-03T18:30:00''
   = Inr \<lparr>year = 2020, month = 2, day = 3, hour = 18, minute = 30, second = 0\<rparr>"
  by code_simp

lemma add_seconds_sample:
  "add_seconds \<lparr>year = 2020, month = 2, day = 3, hour = 18, minute = 30, second = 0\<rparr> 10800
   = Inr \<lparr>year = 2020, month = 2, day = 3, hour = 21, minute = 30, second = 0\<rparr>"
  by (simp add: add_seconds_def ymd2ord_def days_before_year_def days_before_month_def
      is_leap_def ord2ymd_def Let_def)

lemma strftime_sample:
  "strftime \<lparr>year = 2020, month = 2, day = 3, hour = 21, minute = 30, second = 0\<rparr>
   = ''03 Feb 2020, 21:30:00''"
  by (simp add: strftime_def pad2_def month_abbr_def digit_char_values show_nat.simps)

lemma date_int_offset:
  "getHumanReadableDate (''2020-02-03T18:30:00.000Z'', PyInt 3) = Inr ''03 Feb 2020, 21:30:00''"
  by (simp add: getHumanReadableDate_def strptime_sample timedelta_hours_def add_seconds_sample
      strftime_sample)

lemma date_list_offset:
  "getHumanReadableDate (''2020-02-03T18:30:00.000Z'', PyList [3, 0]) = Inl TypeError"
  by (simp add: getHumanReadableDate_def strptime_sample timedelta_hours_def)

lemma newsArticle_list_offset:
  "newsArticle (''ada'', ''Ada L'') ''news.cow'' ''Hello''
        (''2020-02-03T18:30:00.000Z'', PyList [3, 0]) ''+1'' ''hi'' = Inl TypeError"
  by (simp only: newsArticle_def date_list_offset sum.case)

text \<open>
  Claim C3, at the input its code comment documents: the offset is the list
  \<open>[3, 0]\<close> of hours and minutes. The timestamp parses, then
  \<open>timedelta(hours=[3, 0])\<close> raises \<open>TypeError\<close>, so neither the formatter nor the
  constructor of an article returns. With the number \<open>3\<close> as offset the formatter
  returns the string the claim expects.
\<close>

theorem list_offset_raises:
  "getHumanReadableDate (''2020-02-03T18:30:00.000Z'', PyList [3, 0]) = Inl TypeError
   \<and> getHumanReadableDate (''2020-02-03T18:30:00.000Z'', PyInt 3) = Inr ''03 Feb 2020, 21:30:00''
   \<and> newsArticle (''ada'', ''Ada L'') ''news.cow'' ''Hello''
        (''2020-02-03T18:30:00.000Z'', PyList [3, 0]) ''+1'' ''hi'' = Inl TypeError"
  by (simp only: date_list_offset date_int_offset newsArticle_list_offset simp_thms)

end
